theory Spec2Isabelle
  imports Complex_Main "HOL-Library.Sublist"
begin

section \<open>Python values shared by the modules\<close>

text \<open>
  Python strings are modelled as \<open>string\<close>, a \<open>char\<close> standing for the code point of
  the same number (the code points below 256); Python floats by the rational number they
  denote (every score below is a sum of small integers and every comparison is against an
  integer or a decimal constant, so no rounding takes place before \<open>round\<close>); Python
  \<open>None\<close> is \<open>None\<close>. An exception is a value of \<open>exn\<close>, returned as the left
  summand of the result.
\<close>

datatype exn = ValueError | RequestException | HttpError | OtherException

text \<open>\<open>str.isspace\<close> on the characters of the model, which is also what \<open>\s\<close>,
  \<open>str.strip\<close> and \<open>str.split\<close> take for white space: the blank, \<open>0x09 .. 0x0d\<close>, the
  separators \<open>0x1c .. 0x1f\<close>, the next-line character \<open>0x85\<close> and the no-break space
  \<open>0xa0\<close>.\<close>

definition is_space :: "char \<Rightarrow> bool" where
  "is_space c =
     (let n = (of_char c :: nat)
      in n = 32 \<or> (9 \<le> n \<and> n \<le> 13) \<or> (28 \<le> n \<and> n \<le> 31) \<or> n = 133 \<or> n = 160)"

text \<open>\<open>str.strip()\<close>.\<close>

definition strip :: "string \<Rightarrow> string" where
  "strip s = rev (dropWhile is_space (rev (dropWhile is_space s)))"

text \<open>\<open>str.lower()\<close>: the ASCII capitals, and the capitals \<open>0xc0 .. 0xde\<close> of the
  Latin-1 range (\<open>0xd7\<close> is the multiplication sign).\<close>

definition lower_char :: "char \<Rightarrow> char" where
  "lower_char c =
     (let n = (of_char c :: nat)
      in if (65 \<le> n \<and> n \<le> 90) \<or> (192 \<le> n \<and> n \<le> 222 \<and> n \<noteq> 215) then char_of (n + 32)
         else c)"

definition lower :: "string \<Rightarrow> string" where
  "lower s = map lower_char s"

text \<open>\<open>round(x, ndigits)\<close> of the built-in: the decimal with \<open>ndigits\<close> places nearest
  to the exact value of \<open>x\<close>, a tie going to the even last digit.\<close>

definition py_round :: "rat \<Rightarrow> nat \<Rightarrow> rat" where
  "py_round x ndigits =
     (let y = x * 10 ^ ndigits;
          f = \<lfloor>y\<rfloor>;
          d = y - of_int f;
          n = (if d < 1 / 2 then f else if 1 / 2 < d then f + 1 else if even f then f else f + 1)
      in of_int n / 10 ^ ndigits)"

section \<open>urllib.parse, as far as the crawler uses it\<close>

text \<open>
  \<open>urlsplit\<close> and \<open>urlunsplit\<close> follow the standard library as of CPython 3.11.10.
  (Releases differ in \<open>urlunsplit\<close> for an empty netloc with a path that starts with two
  slashes; the crawler calls it with a netloc that is not empty, or with an empty path,
  where they agree.) Three
  library functions are parameters of the model: the validation of a bracketed host
  (\<open>ipaddress\<close> and a regular expression), the NFKC check of a non-ASCII netloc
  (\<open>unicodedata\<close>), and \<open>urljoin\<close>. Each can raise \<open>ValueError\<close>: the checks answer
  \<open>False\<close> then, and \<open>urljoin\<close> answers \<open>None\<close>.
\<close>

record urllib =
  check_bracketed_host :: "string \<Rightarrow> bool"
  checknetloc_nfkc :: "string \<Rightarrow> bool"
  urljoin :: "string \<Rightarrow> string \<Rightarrow> string option"

record SplitResult =
  scheme :: string
  netloc :: string
  path :: string
  query :: string
  fragment :: string

definition c0_control_or_space :: "char \<Rightarrow> bool" where
  "c0_control_or_space c = ((of_char c :: nat) \<le> 32)"

definition unsafe_url_byte :: "char \<Rightarrow> bool" where
  "unsafe_url_byte c = ((of_char c :: nat) = 9 \<or> (of_char c :: nat) = 13 \<or> (of_char c :: nat) = 10)"

definition ascii_alpha :: "char \<Rightarrow> bool" where
  "ascii_alpha c = (let n = (of_char c :: nat) in (97 \<le> n \<and> n \<le> 122) \<or> (65 \<le> n \<and> n \<le> 90))"

definition scheme_char :: "char \<Rightarrow> bool" where
  "scheme_char c =
     (let n = (of_char c :: nat)
      in (97 \<le> n \<and> n \<le> 122) \<or> (65 \<le> n \<and> n \<le> 90) \<or> (48 \<le> n \<and> n \<le> 57)
         \<or> c = CHR ''+'' \<or> c = CHR ''-'' \<or> c = CHR ''.'')"

definition is_ascii :: "char \<Rightarrow> bool" where
  "is_ascii c = ((of_char c :: nat) < 128)"

text \<open>The scheme: the text before the first colon, when the colon is not the first
  character, the first character is an ASCII letter and every character is a scheme
  character. Returns the lower-cased scheme and the rest of the URL.\<close>

definition split_scheme :: "string \<Rightarrow> string \<times> string" where
  "split_scheme url =
     (if CHR '':'' \<in> set url then
        (case takeWhile (\<lambda>c. c \<noteq> CHR '':'') url of
           [] \<Rightarrow> ([], url)
         | c # cs \<Rightarrow>
             if ascii_alpha c \<and> list_all scheme_char (c # cs)
             then (lower (c # cs), tl (dropWhile (\<lambda>c. c \<noteq> CHR '':'') url))
             else ([], url))
      else ([], url))"

definition netloc_delim :: "char \<Rightarrow> bool" where
  "netloc_delim c = (c = CHR ''/'' \<or> c = CHR ''?'' \<or> c = CHR ''#'')"

text \<open>\<open>_splitnetloc(url, 2)\<close>.\<close>

definition splitnetloc :: "string \<Rightarrow> string \<times> string" where
  "splitnetloc url =
     (takeWhile (\<lambda>c. \<not> netloc_delim c) (drop 2 url), dropWhile (\<lambda>c. \<not> netloc_delim c) (drop 2 url))"

text \<open>The two bracket checks of \<open>urlsplit\<close>; \<open>False\<close> stands for \<open>ValueError\<close>.\<close>

definition brackets_ok :: "urllib \<Rightarrow> string \<Rightarrow> bool" where
  "brackets_ok L nl =
     (let lb = CHR ''['' \<in> set nl; rb = CHR '']'' \<in> set nl
      in if (lb \<and> \<not> rb) \<or> (rb \<and> \<not> lb) then False
         else if lb \<and> rb then
           check_bracketed_host L
             (takeWhile (\<lambda>c. c \<noteq> CHR '']'') (tl (dropWhile (\<lambda>c. c \<noteq> CHR ''['') nl)))
         else True)"

text \<open>\<open>_checknetloc\<close>.\<close>

definition checknetloc :: "urllib \<Rightarrow> string \<Rightarrow> bool" where
  "checknetloc L nl = (if nl = [] \<or> list_all is_ascii nl then True else checknetloc_nfkc L nl)"

text \<open>\<open>s.split(sep, 1)\<close> when \<open>sep\<close> occurs in \<open>s\<close>, and \<open>(s, "")\<close> otherwise.\<close>

definition split_first :: "char \<Rightarrow> string \<Rightarrow> string \<times> string" where
  "split_first sep s =
     (if sep \<in> set s then (takeWhile (\<lambda>c. c \<noteq> sep) s, tl (dropWhile (\<lambda>c. c \<noteq> sep) s)) else (s, []))"

text \<open>\<open>urlsplit(url)\<close>; \<open>None\<close> stands for \<open>ValueError\<close>.\<close>

definition urlsplit :: "urllib \<Rightarrow> string \<Rightarrow> SplitResult option" where
  "urlsplit L url0 =
     (let url = filter (\<lambda>c. \<not> unsafe_url_byte c) (dropWhile c0_control_or_space url0);
          (sch, url) = split_scheme url;
          (nl, url) = (if take 2 url = ''//'' then splitnetloc url else ([], url))
      in if \<not> brackets_ok L nl then None
         else
           let (url, frag) = split_first (CHR ''#'') url;
               (url, qry) = split_first (CHR ''?'') url
           in if \<not> checknetloc L nl then None
              else Some \<lparr>scheme = sch, netloc = nl, path = url, query = qry, fragment = frag\<rparr>)"

definition uses_netloc :: "string list" where
  "uses_netloc = ['''', ''ftp'', ''http'', ''gopher'', ''nntp'', ''telnet'',
                  ''imap'', ''wais'', ''file'', ''mms'', ''https'', ''shttp'',
                  ''snews'', ''prospero'', ''rtsp'', ''rtsps'', ''rtspu'', ''rsync'',
                  ''svn'', ''svn+ssh'', ''sftp'', ''nfs'', ''git'', ''git+ssh'',
                  ''ws'', ''wss'']"

definition urlunsplit :: "string \<times> string \<times> string \<times> string \<times> string \<Rightarrow> string" where
  "urlunsplit components =
     (case components of (sch, nl, url, qry, frag) \<Rightarrow>
        let url = (if nl \<noteq> [] \<or> (sch \<noteq> [] \<and> sch \<in> set uses_netloc) \<or> take 2 url = ''//''
                   then ''//'' @ nl @ (if url \<noteq> [] \<and> take 1 url \<noteq> ''/'' then ''/'' @ url else url)
                   else url);
            url = (if sch \<noteq> [] then sch @ '':'' @ url else url);
            url = (if qry \<noteq> [] then url @ ''?'' @ qry else url);
            url = (if frag \<noteq> [] then url @ ''#'' @ frag else url)
        in url)"

section \<open>enrichment/web_crawler.py: URL normalisation\<close>

text \<open>\<open>s.rstrip("/")\<close>.\<close>

definition rstrip_slash :: "string \<Rightarrow> string" where
  "rstrip_slash s = rev (dropWhile (\<lambda>c. c = CHR ''/'') (rev s))"

text \<open>\<open>WebCrawler._normalize_url\<close>: \<open>None\<close> for a \<open>ValueError\<close> of \<open>urlsplit\<close>, for a
  scheme other than http and https, and for an empty netloc.\<close>

definition normalize_url :: "urllib \<Rightarrow> string \<Rightarrow> string option" where
  "normalize_url L url =
     (case urlsplit L url of
        None \<Rightarrow> None
      | Some parsed \<Rightarrow>
          if scheme parsed \<notin> {''http'', ''https''} \<or> netloc parsed = [] then None
          else
            let normalized = urlunsplit (scheme parsed, netloc parsed,
                               (if path parsed \<noteq> [] then path parsed else ''/''), [], [])
            in Some (rstrip_slash normalized @ (if path parsed \<noteq> [] then [] else ''/'')))"

text \<open>\<open>WebCrawler._domain_key\<close>; the \<open>ValueError\<close> of \<open>urlsplit\<close> is not caught here.\<close>

definition domain_key :: "urllib \<Rightarrow> string \<Rightarrow> string option" where
  "domain_key L url =
     (case urlsplit L url of
        None \<Rightarrow> None
      | Some parsed \<Rightarrow> Some (urlunsplit (scheme parsed, netloc parsed, [], [], [])))"

section \<open>utils/http.py\<close>

text \<open>
  The network is an external collaborator: \<open>session_get\<close> is \<open>requests.Session.get\<close>,
  which returns a response or raises, and \<open>sleep\<close> is the pause that the retry decorator
  makes between two attempts (in seconds). Both act on the outside world \<open>'w\<close>.
\<close>

record Response =
  status_code :: int
  body_text :: string

record 'w network =
  session_get :: "string \<Rightarrow> 'w \<Rightarrow> (exn + Response) \<times> 'w"
  sleep :: "nat \<Rightarrow> 'w \<Rightarrow> 'w"

text \<open>The body of \<open>get\<close>: one request; a response with status 400 or more raises
  \<open>HttpError\<close>.\<close>

definition get_body :: "'w network \<Rightarrow> string \<Rightarrow> 'w \<Rightarrow> (exn + Response) \<times> 'w" where
  "get_body N url w =
     (case session_get N url w of
        (Inl e, w') \<Rightarrow> (Inl e, w')
      | (Inr response, w') \<Rightarrow>
          if 400 \<le> status_code response then (Inl HttpError, w') else (Inr response, w'))"

text \<open>The decorator \<open>@retry(retry=retry_if_exception_type((requests.RequestException,
  HttpError)), stop=stop_after_attempt(3), wait=wait_exponential(multiplier=1, min=1,
  max=8), reraise=True)\<close>: after a failed attempt the exception is raised again when its
  type is not listed or when the attempt was the third, and otherwise the call pauses
  and tries again.\<close>

definition retry_if_exception_type :: "exn \<Rightarrow> bool" where
  "retry_if_exception_type e = (e = RequestException \<or> e = HttpError)"

definition stop_after_attempt :: "nat \<Rightarrow> bool" where
  "stop_after_attempt attempt_number = (3 \<le> attempt_number)"

definition wait_exponential :: "nat \<Rightarrow> nat" where
  "wait_exponential attempt_number = max (max 0 1) (min (1 * 2 ^ (attempt_number - 1)) 8)"

function get_attempt :: "'w network \<Rightarrow> string \<Rightarrow> nat \<Rightarrow> 'w \<Rightarrow> (exn + Response) \<times> 'w" where
  "get_attempt N url attempt_number w =
     (case get_body N url w of
        (Inr response, w') \<Rightarrow> (Inr response, w')
      | (Inl e, w') \<Rightarrow>
          if \<not> retry_if_exception_type e then (Inl e, w')
          else if stop_after_attempt attempt_number then (Inl e, w')
          else get_attempt N url (attempt_number + 1) (sleep N (wait_exponential attempt_number) w'))"
  by pat_completeness auto
termination
  by (relation "measure (\<lambda>(N, url, attempt_number, w). 3 - attempt_number)")
     (auto simp: stop_after_attempt_def)

declare get_attempt.simps [simp del]

definition get :: "'w network \<Rightarrow> string \<Rightarrow> 'w \<Rightarrow> (exn + Response) \<times> 'w" where
  "get N url w = get_attempt N url 1 w"

text \<open>A scripted network to observe \<open>get\<close> with: the k-th request of a run receives the
  k-th outcome of the script, and the world records the URLs requested and the pauses made.\<close>

record trace =
  requested :: "string list"
  slept :: "nat list"

definition scripted :: "(nat \<Rightarrow> exn + Response) \<Rightarrow> trace network" where
  "scripted script =
     \<lparr>session_get = (\<lambda>url t. (script (length (requested t)), t\<lparr>requested := requested t @ [url]\<rparr>)),
      sleep = (\<lambda>d t. t\<lparr>slept := slept t @ [d]\<rparr>)\<rparr>"

definition no_trace :: trace where
  "no_trace = \<lparr>requested = [], slept = []\<rparr>"

text \<open>The script \<open>500, 200, 200, ...\<close>.\<close>

definition script_500_then_200 :: "nat \<Rightarrow> exn + Response" where
  "script_500_then_200 k =
     (if k = 0 then Inr \<lparr>status_code = 500, body_text = ''error''\<rparr>
      else Inr \<lparr>status_code = 200, body_text = ''<html></html>''\<rparr>)"

text \<open>The script \<open>200, 200, ...\<close> and the script on which every request raises an
  exception that is neither a \<open>RequestException\<close> nor an \<open>HttpError\<close>.\<close>

definition script_always_200 :: "nat \<Rightarrow> exn + Response" where
  "script_always_200 k = Inr \<lparr>status_code = 200, body_text = ''<html></html>''\<rparr>"

definition script_other_exception :: "nat \<Rightarrow> exn + Response" where
  "script_other_exception k = Inl OtherException"

text \<open>The script \<open>503, 503, 503, ...\<close>.\<close>

definition script_always_503 :: "nat \<Rightarrow> exn + Response" where
  "script_always_503 k = Inr \<lparr>status_code = 503, body_text = ''busy''\<rparr>"

section \<open>utils/text.py\<close>

text \<open>\<open>re.sub(r"\s+", " ", text)\<close>: every maximal run of white space becomes one blank.\<close>

fun sub_whitespace :: "string \<Rightarrow> string" where
  "sub_whitespace [] = []"
| "sub_whitespace [c] = (if is_space c then '' '' else [c])"
| "sub_whitespace (c # d # cs) =
     (if is_space c
      then (if is_space d then sub_whitespace (d # cs) else CHR '' '' # sub_whitespace (d # cs))
      else c # sub_whitespace (d # cs))"

definition clean_whitespace :: "string \<Rightarrow> string" where
  "clean_whitespace s = strip (sub_whitespace s)"

section \<open>enrichment/web_crawler.py: the crawler\<close>

text \<open>
  A library instance to run the model with: every bracketed host and every netloc is
  accepted, and \<open>urljoin\<close> answers the reference itself, which is what the standard
  library does for the absolute http references of the examples below.
\<close>

definition lib0 :: urllib where
  "lib0 = \<lparr>check_bracketed_host = (\<lambda>h. True), checknetloc_nfkc = (\<lambda>n. True),
            urljoin = (\<lambda>base ref. Some ref)\<rparr>"

record PageSnapshot =
  snapshot_url :: string
  title :: string
  language :: "string option"
  raw_html :: string
  extracted_text :: string

text \<open>
  The collaborators of the crawler. \<open>robot_read\<close> is \<open>RobotFileParser\<close> construction,
  \<open>set_url\<close> and \<open>read\<close> (with the exception of \<open>read\<close> swallowed, as the source does) and
  yields the parser; \<open>can_fetch\<close> is the method of that name. \<open>soup_title_string\<close> is
  \<open>soup.title.string\<close> (\<open>None\<close> without a title), \<open>trafilatura_extract\<close>,
  \<open>soup_get_text\<close> and \<open>langdetect_detect\<close> (\<open>None\<close> when it raises) are the text
  extractors, \<open>soup_anchor_hrefs\<close> lists the \<open>href\<close> of every anchor that has one, in
  document order, and \<open>set_iteration\<close> is the order in which a Python set built by
  inserting the given elements is iterated.
\<close>

record ('w, 'p) crawler_env =
  net :: "'w network"
  robot_read :: "string \<Rightarrow> 'w \<Rightarrow> 'p \<times> 'w"
  can_fetch :: "'p \<Rightarrow> string \<Rightarrow> string \<Rightarrow> bool"
  soup_title_string :: "string \<Rightarrow> string option"
  trafilatura_extract :: "string \<Rightarrow> string option"
  soup_get_text :: "string \<Rightarrow> string"
  langdetect_detect :: "string \<Rightarrow> string option"
  soup_anchor_hrefs :: "string \<Rightarrow> string list"
  set_iteration :: "string list \<Rightarrow> string list"

text \<open>The robots cache of the crawler instance and the local variables of \<open>crawl\<close>.\<close>

record ('w, 'p) crawler_state =
  to_visit :: "string list"
  seen :: "string set"
  snapshots :: "PageSnapshot list"
  robots_cache :: "string \<rightharpoonup> 'p"
  world :: 'w

text \<open>\<open>_fetch_html\<close>: any exception of \<open>get\<close> gives \<open>None\<close>.\<close>

definition fetch_html :: "('w, 'p) crawler_env \<Rightarrow> string \<Rightarrow> 'w \<Rightarrow> string option \<times> 'w" where
  "fetch_html E u w =
     (case get (net E) u w of
        (Inl e, w') \<Rightarrow> (None, w')
      | (Inr response, w') \<Rightarrow> (Some (body_text response), w'))"

text \<open>\<open>_get_robot_parser\<close>: the \<open>ValueError\<close> of \<open>_domain_key\<close> and of \<open>urljoin\<close> is not
  caught.\<close>

definition get_robot_parser ::
  "urllib \<Rightarrow> ('w, 'p) crawler_env \<Rightarrow> string \<Rightarrow> (string \<rightharpoonup> 'p) \<Rightarrow> 'w
     \<Rightarrow> (exn + 'p) \<times> (string \<rightharpoonup> 'p) \<times> 'w" where
  "get_robot_parser L E u cache w =
     (case domain_key L u of
        None \<Rightarrow> (Inl ValueError, cache, w)
      | Some domain \<Rightarrow>
          (case cache domain of
             Some parser \<Rightarrow> (Inr parser, cache, w)
           | None \<Rightarrow>
               (case urljoin L domain ''/robots.txt'' of
                  None \<Rightarrow> (Inl ValueError, cache, w)
                | Some robots_url \<Rightarrow>
                    (case robot_read E robots_url w of
                       (parser, w') \<Rightarrow> (Inr parser, cache(domain \<mapsto> parser), w')))))"

text \<open>\<open>_is_allowed\<close>.\<close>

definition is_allowed ::
  "urllib \<Rightarrow> ('w, 'p) crawler_env \<Rightarrow> string \<Rightarrow> (string \<rightharpoonup> 'p) \<Rightarrow> 'w
     \<Rightarrow> (exn + bool) \<times> (string \<rightharpoonup> 'p) \<times> 'w" where
  "is_allowed L E u cache w =
     (case get_robot_parser L E u cache w of
        (Inl e, cache', w') \<Rightarrow> (Inl e, cache', w')
      | (Inr parser, cache', w') \<Rightarrow> (Inr (can_fetch E parser ''*'' u), cache', w'))"

text \<open>\<open>_detect_language\<close>.\<close>

definition detect_language :: "('w, 'p) crawler_env \<Rightarrow> string \<Rightarrow> string option" where
  "detect_language E s = (if length s < 20 then None else langdetect_detect E s)"

text \<open>The loop of \<open>_extract_internal_links\<close> over the anchors; \<open>links\<close> holds the
  elements of the set in the order of their insertion.\<close>

fun collect_links :: "urllib \<Rightarrow> string \<Rightarrow> SplitResult \<Rightarrow> string list \<Rightarrow> string list \<Rightarrow> exn + string list" where
  "collect_links L root_url root_parts [] links = Inr links"
| "collect_links L root_url root_parts (href # hrefs) links =
     (case urljoin L root_url href of
        None \<Rightarrow> Inl ValueError
      | Some parsed \<Rightarrow>
          (case urlsplit L parsed of
             None \<Rightarrow> Inl ValueError
           | Some parsed_parts \<Rightarrow>
               if netloc parsed_parts \<noteq> netloc root_parts
               then collect_links L root_url root_parts hrefs links
               else if scheme parsed_parts \<notin> {''http'', ''https''}
               then collect_links L root_url root_parts hrefs links
               else
                 (case normalize_url L parsed of
                    None \<Rightarrow> collect_links L root_url root_parts hrefs links
                  | Some normalized \<Rightarrow>
                      if normalized = [] then collect_links L root_url root_parts hrefs links
                      else collect_links L root_url root_parts hrefs
                             (if normalized \<in> set links then links else links @ [normalized]))))"

text \<open>\<open>_extract_internal_links\<close>, the returned set listed in its iteration order.\<close>

definition extract_internal_links ::
  "urllib \<Rightarrow> ('w, 'p) crawler_env \<Rightarrow> string \<Rightarrow> string \<Rightarrow> exn + string list" where
  "extract_internal_links L E root_url html =
     (case urlsplit L root_url of
        None \<Rightarrow> Inl ValueError
      | Some root_parts \<Rightarrow>
          (case collect_links L root_url root_parts (soup_anchor_hrefs E html) [] of
             Inl e \<Rightarrow> Inl e
           | Inr links \<Rightarrow> Inr (set_iteration E links)))"

text \<open>The loop \<open>for link in ...: if link not in seen and link not in to_visit and
  len(to_visit) < self._max_pages * 2: to_visit.append(link)\<close>.\<close>

fun enqueue :: "int \<Rightarrow> string set \<Rightarrow> string list \<Rightarrow> string list \<Rightarrow> string list" where
  "enqueue max_pages sn [] frontier = frontier"
| "enqueue max_pages sn (link # links) frontier =
     enqueue max_pages sn links
       (if link \<notin> sn \<and> link \<notin> set frontier \<and> int (length frontier) < max_pages * 2
        then frontier @ [link] else frontier)"

text \<open>One iteration of the \<open>while\<close> loop of \<open>crawl\<close>. The loop condition guarantees a
  non-empty frontier; an exception leaves the loop and \<open>crawl\<close>.\<close>

definition crawl_step ::
  "urllib \<Rightarrow> ('w, 'p) crawler_env \<Rightarrow> int \<Rightarrow> string \<Rightarrow> ('w, 'p) crawler_state
     \<Rightarrow> exn + ('w, 'p) crawler_state" where
  "crawl_step L E max_pages normalized_root st =
     (case to_visit st of
        [] \<Rightarrow> Inr st
      | target # rest \<Rightarrow>
          if target \<in> seen st then Inr (st\<lparr>to_visit := rest\<rparr>)
          else
            (case is_allowed L E target (robots_cache st) (world st) of
               (Inl e, cache, w) \<Rightarrow> Inl e
             | (Inr allowed, cache, w) \<Rightarrow>
                 if \<not> allowed then Inr (st\<lparr>to_visit := rest, robots_cache := cache, world := w\<rparr>)
                 else
                   (case fetch_html E target w of
                      (None, w') \<Rightarrow>
                        Inr (st\<lparr>to_visit := rest, seen := insert target (seen st),
                                robots_cache := cache, world := w'\<rparr>)
                    | (Some html, w') \<Rightarrow>
                        let page_title = (case soup_title_string E html of
                                            None \<Rightarrow> [] | Some s \<Rightarrow> clean_whitespace s);
                            page_text = clean_whitespace
                                          (case trafilatura_extract E html of
                                             None \<Rightarrow> soup_get_text E html
                                           | Some s \<Rightarrow> if s = [] then soup_get_text E html else s);
                            snapshot = \<lparr>snapshot_url = target, title = page_title,
                                        language = detect_language E page_text,
                                        raw_html = html, extracted_text = page_text\<rparr>
                        in (case extract_internal_links L E normalized_root html of
                              Inl e \<Rightarrow> Inl e
                            | Inr links \<Rightarrow>
                                Inr (st\<lparr>to_visit := enqueue max_pages (insert target (seen st)) links rest,
                                        seen := insert target (seen st),
                                        snapshots := snapshots st @ [snapshot],
                                        robots_cache := cache, world := w'\<rparr>)))))"





text \<open>
  To observe which pages a crawl requests: the same collaborators, acting on a world
  that also holds the list of the URLs handed to \<open>session.get\<close> so far. Only
  \<open>session_get\<close> adds to the list.
\<close>

definition recording :: "('w, 'p) crawler_env \<Rightarrow> ('w \<times> string list, 'p) crawler_env" where
  "recording E =
     \<lparr>net = \<lparr>session_get = (\<lambda>u wl. case session_get (net E) u (fst wl) of
                                       (r, w') \<Rightarrow> (r, (w', snd wl @ [u]))),
              sleep = (\<lambda>d wl. (sleep (net E) d (fst wl), snd wl))\<rparr>,
      robot_read = (\<lambda>robots_url wl. case robot_read E robots_url (fst wl) of
                                        (parser, w') \<Rightarrow> (parser, (w', snd wl))),
      can_fetch = can_fetch E,
      soup_title_string = soup_title_string E,
      trafilatura_extract = trafilatura_extract E,
      soup_get_text = soup_get_text E,
      langdetect_detect = langdetect_detect E,
      soup_anchor_hrefs = soup_anchor_hrefs E,
      set_iteration = set_iteration E\<rparr>"

text \<open>
  A small site to run the crawler on: the home page links to a page that robots.txt
  disallows, to an about page and to another host; the about page links to the
  disallowed page again. Every request is answered with status 200, and a set is
  iterated in insertion order.
\<close>

definition site0_page :: "string \<Rightarrow> string" where
  "site0_page u =
     (if u = ''http://a.com/'' then ''home''
      else if u = ''http://a.com/about'' then ''about'' else ''other'')"

definition site0 :: "(unit, unit) crawler_env" where
  "site0 =
     \<lparr>net = \<lparr>session_get = (\<lambda>u w. (Inr \<lparr>status_code = 200, body_text = site0_page u\<rparr>, w)),
              sleep = (\<lambda>d w. w)\<rparr>,
      robot_read = (\<lambda>robots_url w. ((), w)),
      can_fetch = (\<lambda>parser agent u. u \<noteq> ''http://a.com/private''),
      soup_title_string = (\<lambda>html. None),
      trafilatura_extract = (\<lambda>html. None),
      soup_get_text = (\<lambda>html. html),
      langdetect_detect = (\<lambda>s. None),
      soup_anchor_hrefs = (\<lambda>html.
         if html = ''home'' then [''http://a.com/private'', ''http://a.com/about'', ''http://b.org/'']
         else if html = ''about'' then [''http://a.com/private'']
         else []),
      set_iteration = (\<lambda>links. links)\<rparr>"

text \<open>The state of \<open>crawl\<close> on \<open>site0\<close> when the loop is entered, and the state after a
  number of iterations (an exception keeps the state it occurred in).\<close>

definition site0_start :: "(unit, unit) crawler_state" where
  "site0_start = \<lparr>to_visit = [''http://a.com/''], seen = {}, snapshots = [],
                   robots_cache = Map.empty, world = ()\<rparr>"

fun iterations :: "urllib \<Rightarrow> ('w, 'p) crawler_env \<Rightarrow> int \<Rightarrow> string \<Rightarrow> nat \<Rightarrow> ('w, 'p) crawler_state
     \<Rightarrow> ('w, 'p) crawler_state" where
  "iterations L E max_pages normalized_root 0 st = st"
| "iterations L E max_pages normalized_root (Suc n) st =
     (case crawl_step L E max_pages normalized_root st of
        Inl e \<Rightarrow> st
      | Inr st' \<Rightarrow> iterations L E max_pages normalized_root n st')"



definition site0_revisit :: "(unit \<times> string list, unit) crawler_state" where
  "site0_revisit = \<lparr>to_visit = [''http://a.com/''], seen = {''http://a.com/''}, snapshots = [],
                     robots_cache = Map.empty, world = ((), [])\<rparr>"

definition site0_blocked :: "(unit \<times> string list, unit) crawler_state" where
  "site0_blocked = \<lparr>to_visit = [''http://a.com/private''], seen = {}, snapshots = [],
                     robots_cache = Map.empty, world = ((), [])\<rparr>"

section \<open>google_places/client.py: the business record\<close>

record Coordinates =
  lat :: rat
  lng :: rat

record BusinessRecord =
  place_id :: string
  name :: string
  address :: string
  location :: Coordinates
  types :: "string list"
  rating :: "rat option"
  user_ratings_total :: "int option"
  website :: "string option"
  phone_number :: "string option"
  google_maps_url :: string

section \<open>features/engineering.py: the feature vector\<close>

record FeatureVector =
  fv_place_id :: string
  business_name :: string
  fv_website :: "string option"
  total_pages :: int
  languages :: "string list"
  avg_word_count :: rat
  has_structured_data :: bool
  has_meta_description :: bool
  has_open_graph :: bool
  has_analytics :: bool
  has_contact_cta :: bool
  has_viewport_meta :: bool
  has_email_address :: bool
  has_phone_number :: bool

text \<open>
  The HTML parser and the regular expression engine are external libraries:
  \<open>soup_find_ld_json html\<close> is \<open>soup.find("script", attrs={"type": "application/ld+json"})\<close>
  finding something in the parsed page, \<open>soup_find_meta_name html n\<close> is
  \<open>soup.find("meta", attrs={"name": n})\<close>, \<open>soup_find_meta_og html\<close> is
  \<open>soup.find("meta", attrs={"property": re.compile(r"^og:")})\<close>, \<open>soup_all_anchor_texts\<close>
  lists \<open>anchor.get_text() or ""\<close> for the anchors of the page, and \<open>re_search p s\<close> is
  \<open>re.search(p, s)\<close> finding a match. They are taken as total functions.
  \<open>nearest_float\<close> is the rounding of an exact quotient to the nearest float, which
  \<open>statistics.mean\<close> ends with.
\<close>

record html_lib =
  soup_find_ld_json :: "string \<Rightarrow> bool"
  soup_find_meta_name :: "string \<Rightarrow> string \<Rightarrow> bool"
  soup_find_meta_og :: "string \<Rightarrow> bool"
  soup_all_anchor_texts :: "string \<Rightarrow> string list"
  re_search :: "string \<Rightarrow> string \<Rightarrow> bool"
  nearest_float :: "rat \<Rightarrow> rat"

definition LANGUAGE_CODE_MAP :: "(string \<times> string) list" where
  "LANGUAGE_CODE_MAP =
     [(''ar'', ''Arabic''), (''en'', ''English''), (''ar-sa'', ''Arabic''), (''en-us'', ''English'')]"

text \<open>The patterns are the raw strings of the source; \<open>CHR 0x5C\<close> is the backslash.\<close>

definition ANALYTICS_PATTERNS :: "string list" where
  "ANALYTICS_PATTERNS =
     [''gtag'' @ [CHR 0x5C] @ ''('', ''googletagmanager'', ''analytics.js'', ''gtm-'']"

definition CONTACT_KEYWORDS :: "string list" where
  "CONTACT_KEYWORDS = [''contact'', ''book'', ''call'', ''appointment'', ''consultation'']"

definition EMAIL_PATTERN :: string where
  "EMAIL_PATTERN = ''['' @ [CHR 0x5C] @ ''w.+-]+@['' @ [CHR 0x5C] @ ''w-]+'' @ [CHR 0x5C]
                     @ ''.['' @ [CHR 0x5C] @ ''w.-]+''"

definition PHONE_PATTERN :: string where
  "PHONE_PATTERN = [CHR 0x5C] @ ''+?'' @ [CHR 0x5C] @ ''d['' @ [CHR 0x5C] @ ''d'' @ [CHR 0x5C]
                     @ ''s().-]{7,}''"

text \<open>\<open>sub in s\<close> for strings.\<close>

fun contains :: "string \<Rightarrow> string \<Rightarrow> bool" where
  "contains sub [] = (sub = [])"
| "contains sub (c # cs) = (prefix sub (c # cs) \<or> contains sub cs)"

text \<open>\<open>s.split()\<close>: the maximal runs of characters that are not white space.\<close>

fun split_from :: "string \<Rightarrow> string \<Rightarrow> string list" where
  "split_from word [] = (if word = [] then [] else [word])"
| "split_from word (c # cs) =
     (if is_space c then (if word = [] then split_from [] cs else word # split_from [] cs)
      else split_from (word @ [c]) cs)"

definition str_split :: "string \<Rightarrow> string list" where
  "str_split s = split_from [] s"

text \<open>\<open>_contains_patterns\<close> and \<open>_contains_contact_cta\<close>.\<close>

definition contains_patterns :: "html_lib \<Rightarrow> string \<Rightarrow> string list \<Rightarrow> bool" where
  "contains_patterns H s patterns = list_ex (\<lambda>pattern. re_search H pattern s) patterns"

definition contains_contact_cta :: "html_lib \<Rightarrow> string \<Rightarrow> bool" where
  "contains_contact_cta H html =
     list_ex (\<lambda>anchor_text. list_ex (\<lambda>keyword. contains keyword (lower (strip anchor_text)))
                              CONTACT_KEYWORDS)
       (soup_all_anchor_texts H html)"

text \<open>A \<open>Counter\<close> is a dictionary: the keys in the order of their first insertion, each
  with its count. \<open>counter_incr\<close> is \<open>counter[key] += 1\<close>, \<open>most_common\<close> is
  \<open>sorted(counter.items(), key=itemgetter(1), reverse=True)\<close>, a stable sort.\<close>

fun counter_incr :: "string \<Rightarrow> (string \<times> nat) list \<Rightarrow> (string \<times> nat) list" where
  "counter_incr key [] = [(key, 1)]"
| "counter_incr key ((k, n) # kvs) =
     (if key = k then (k, n + 1) # kvs else (k, n) # counter_incr key kvs)"

definition most_common :: "(string \<times> nat) list \<Rightarrow> (string \<times> nat) list" where
  "most_common counter = sort_key (\<lambda>item. - int (snd item)) counter"

text \<open>The label that a snapshot adds to the language counter, if any: lines 84 to 88 of
  the loop.\<close>

definition language_label :: "PageSnapshot \<Rightarrow> string option" where
  "language_label snapshot =
     (case language snapshot of
        None \<Rightarrow> None
      | Some lang \<Rightarrow>
          if lang = [] then None
          else
            let language_code = lower lang;
                label = (case map_of LANGUAGE_CODE_MAP language_code of
                           None \<Rightarrow> lang | Some l \<Rightarrow> l)
            in if label \<noteq> [] then Some label else None)"

text \<open>The variables that the loop over the snapshots updates.\<close>

record scan_state =
  language_counter :: "(string \<times> nat) list"
  word_counts :: "nat list"
  structured_data :: bool
  meta_description :: bool
  open_graph :: bool
  analytics :: bool
  contact_cta :: bool
  viewport_meta :: bool
  email_present :: bool
  phone_present :: bool

definition scan_start :: scan_state where
  "scan_start =
     \<lparr>language_counter = [], word_counts = [], structured_data = False,
      meta_description = False, open_graph = False, analytics = False, contact_cta = False,
      viewport_meta = False, email_present = False, phone_present = False\<rparr>"

text \<open>The body of the loop.\<close>

definition scan_snapshot :: "html_lib \<Rightarrow> scan_state \<Rightarrow> PageSnapshot \<Rightarrow> scan_state" where
  "scan_snapshot H acc snapshot =
     (let txt = extracted_text snapshot;
          html = raw_html snapshot
      in acc\<lparr>language_counter :=
                 (case language_label snapshot of
                    None \<Rightarrow> language_counter acc
                  | Some label \<Rightarrow> counter_incr label (language_counter acc)),
              word_counts := word_counts acc @ [length (str_split txt)],
              structured_data :=
                (if soup_find_ld_json H html \<or> contains ''schema.org'' html then True
                 else structured_data acc),
              meta_description :=
                (if soup_find_meta_name H html ''description'' then True else meta_description acc),
              open_graph := (if soup_find_meta_og H html then True else open_graph acc),
              viewport_meta :=
                (if soup_find_meta_name H html ''viewport'' then True else viewport_meta acc),
              analytics :=
                (if contains_patterns H html ANALYTICS_PATTERNS then True else analytics acc),
              contact_cta := (if contains_contact_cta H html then True else contact_cta acc),
              email_present := (if re_search H EMAIL_PATTERN txt then True else email_present acc),
              phone_present := (if re_search H PHONE_PATTERN txt then True else phone_present acc)\<rparr>)"

text \<open>\<open>statistics.mean\<close> of a non-empty list of integers: the exact quotient, converted
  to a float.\<close>

definition mean :: "html_lib \<Rightarrow> nat list \<Rightarrow> rat" where
  "mean H xs = nearest_float H (of_nat (sum_list xs) / of_nat (length xs))"

definition build_feature_vector :: "html_lib \<Rightarrow> BusinessRecord \<Rightarrow> PageSnapshot list \<Rightarrow> FeatureVector" where
  "build_feature_vector H b pages =
     (if pages = [] then
        \<lparr>fv_place_id = place_id b, business_name = name b, fv_website = website b,
         total_pages = 0, languages = [], avg_word_count = 0,
         has_structured_data = False, has_meta_description = False, has_open_graph = False,
         has_analytics = False, has_contact_cta = False, has_viewport_meta = False,
         has_email_address = False, has_phone_number = False\<rparr>
      else
        let acc = foldl (scan_snapshot H) scan_start pages;
            langs = map fst (most_common (language_counter acc));
            avg_words = (if word_counts acc \<noteq> [] then mean H (word_counts acc) else 0)
        in \<lparr>fv_place_id = place_id b, business_name = name b, fv_website = website b,
            total_pages = int (length pages), languages = langs, avg_word_count = avg_words,
            has_structured_data = structured_data acc, has_meta_description = meta_description acc,
            has_open_graph = open_graph acc, has_analytics = analytics acc,
            has_contact_cta = contact_cta acc, has_viewport_meta = viewport_meta acc,
            has_email_address = email_present acc, has_phone_number = phone_present acc\<rparr>)"

text \<open>The position of the first occurrence of \<open>x\<close> in \<open>xs\<close> (the length of \<open>xs\<close> when
  there is none), to state the order of the language list with.\<close>

definition first_seen :: "'a list \<Rightarrow> 'a \<Rightarrow> nat" where
  "first_seen xs x = length (takeWhile (\<lambda>y. y \<noteq> x) xs)"

text \<open>The labels that the snapshots add to the counter, in the order of the snapshots.\<close>

definition detected_labels :: "PageSnapshot list \<Rightarrow> string list" where
  "detected_labels pages = List.map_filter language_label pages"

text \<open>Inputs to run the feature extractor on: a library that finds nothing (and rounds
  nothing: the averages of the examples are integers), and four pages in English,
  Arabic, Arabic and French.\<close>

definition html0 :: html_lib where
  "html0 = \<lparr>soup_find_ld_json = (\<lambda>html. False), soup_find_meta_name = (\<lambda>html n. False),
            soup_find_meta_og = (\<lambda>html. False), soup_all_anchor_texts = (\<lambda>html. []),
            re_search = (\<lambda>pattern s. False), nearest_float = (\<lambda>q. q)\<rparr>"

definition page_in :: "string \<Rightarrow> PageSnapshot" where
  "page_in lang = \<lparr>snapshot_url = ''http://a.com/'', title = ''t'', language = Some lang,
                   raw_html = ''<p>two words</p>'', extracted_text = ''two words''\<rparr>"

definition pages0 :: "PageSnapshot list" where
  "pages0 = [page_in ''en'', page_in ''ar'', page_in ''AR-SA'', page_in ''fr'']"

section \<open>scoring/digital_maturity.py\<close>

record SubScores =
  technical :: rat
  seo :: rat
  content :: rat
  trust :: rat

record MaturityAssessment =
  ma_place_id :: string
  ma_business_name :: string
  overall_score :: rat
  subscores :: SubScores
  highlights_en :: string
  highlights_ar :: string
  recommendations_en :: string
  recommendations_ar :: string

text \<open>\<open>business.website and business.website.startswith("https")\<close>.\<close>

definition website_is_https :: "BusinessRecord \<Rightarrow> bool" where
  "website_is_https b = (case website b of None \<Rightarrow> False | Some s \<Rightarrow> s \<noteq> [] \<and> prefix ''https'' s)"

definition score_technical :: "BusinessRecord \<Rightarrow> FeatureVector \<Rightarrow> rat" where
  "score_technical b f =
     (let score = 50;
          score = (if website_is_https b then score + 15 else score);
          score = (if has_structured_data f then score + 10 else score);
          score = (if has_viewport_meta f then score + 10 else score);
          score = (if has_analytics f then score + 15 else score)
      in min score 100)"

definition score_seo :: "FeatureVector \<Rightarrow> rat" where
  "score_seo f =
     (let score = 40;
          score = (if has_meta_description f then score + 15 else score);
          score = (if has_open_graph f then score + 10 else score);
          score = (if 2 \<le> length (languages f) then score + 15 else score);
          score = (if 300 \<le> avg_word_count f then score + 20 else score)
      in min score 100)"

definition score_content :: "FeatureVector \<Rightarrow> rat" where
  "score_content f =
     (let score = 35;
          score = (if 400 \<le> avg_word_count f then score + 20
                   else if 250 \<le> avg_word_count f then score + 10 else score);
          score = (if 3 \<le> total_pages f then score + 15 else score);
          score = (if has_contact_cta f then score + 10 else score)
      in min score 100)"

text \<open>\<open>business.rating or 0\<close>: \<open>None\<close> and \<open>0.0\<close> both give 0.
  \<open>business.user_ratings_total and business.user_ratings_total > 50\<close>.\<close>

definition score_trust :: "BusinessRecord \<Rightarrow> FeatureVector \<Rightarrow> rat" where
  "score_trust b f =
     (let score = 45;
          score = (if 42 / 10 \<le> (case rating b of None \<Rightarrow> 0 | Some r \<Rightarrow> r) then score + 15 else score);
          score = (if has_email_address f then score + 10 else score);
          score = (if has_phone_number f then score + 10 else score);
          score = (if (case user_ratings_total b of None \<Rightarrow> False | Some n \<Rightarrow> n \<noteq> 0 \<and> 50 < n)
                   then score + 10 else score)
      in min score 100)"

definition calculate_subscores :: "BusinessRecord \<Rightarrow> FeatureVector \<Rightarrow> SubScores" where
  "calculate_subscores b f =
     \<lparr>technical = score_technical b f, seo = score_seo f,
      content = score_content f, trust = score_trust b f\<rparr>"

text \<open>
  The four prompts are f-strings over the business, the features, the subscores and the
  language name; the text generator is an external collaborator. The model hands the
  generator the values the prompt is built from, so every generator that reads the prompt
  text is an instance. A call of the generator may raise and may change the outside world
  \<open>'w\<close>.
\<close>

datatype prompt =
    Highlight_prompt BusinessRecord FeatureVector SubScores string
  | Recommendation_prompt BusinessRecord FeatureVector SubScores string

type_synonym 'w llm = "prompt \<Rightarrow> 'w \<Rightarrow> (exn + string) \<times> 'w"

definition score :: "'w llm \<Rightarrow> BusinessRecord \<Rightarrow> FeatureVector \<Rightarrow> 'w \<Rightarrow> (exn + MaturityAssessment) \<times> 'w" where
  "score generate b f w =
     (let sub = calculate_subscores b f;
          overall = py_round ((technical sub + seo sub + content sub + trust sub) / 4) 2
      in case generate (Highlight_prompt b f sub ''English'') w of
           (Inl e, w1) \<Rightarrow> (Inl e, w1)
         | (Inr h_en, w1) \<Rightarrow>
       (case generate (Highlight_prompt b f sub ''Arabic'') w1 of
           (Inl e, w2) \<Rightarrow> (Inl e, w2)
         | (Inr h_ar, w2) \<Rightarrow>
       (case generate (Recommendation_prompt b f sub ''English'') w2 of
           (Inl e, w3) \<Rightarrow> (Inl e, w3)
         | (Inr r_en, w3) \<Rightarrow>
       (case generate (Recommendation_prompt b f sub ''Arabic'') w3 of
           (Inl e, w4) \<Rightarrow> (Inl e, w4)
         | (Inr r_ar, w4) \<Rightarrow>
             (Inr \<lparr>ma_place_id = place_id b, ma_business_name = name b,
                   overall_score = overall, subscores = sub,
                   highlights_en = strip h_en, highlights_ar = strip h_ar,
                   recommendations_en = strip r_en, recommendations_ar = strip r_ar\<rparr>, w4)))))"

section \<open>generation/offers.py: the package rule\<close>

datatype ServicePackage = BASIC | PROFESSIONAL | ENTERPRISE

record BusinessAnalysis =
  business :: BusinessRecord
  feature_vector :: FeatureVector
  maturity :: MaturityAssessment
  industry :: string
  web_page_titles :: "string list"
  ba_locale :: string

definition analyze_package_fit :: "BusinessAnalysis \<Rightarrow> ServicePackage" where
  "analyze_package_fit analysis =
     (let maturity_score = overall_score (maturity analysis)
      in if maturity_score < 30 then BASIC
         else if maturity_score < 70 then PROFESSIONAL
         else ENTERPRISE)"

text \<open>Concrete inputs used to run the scorer: a generator that answers every prompt with
  the same text, and the maximally positive business and feature vector.\<close>

definition const_llm :: "unit llm" where
  "const_llm p w = (Inr '' ok '', w)"

definition max_business :: BusinessRecord where
  "max_business =
     \<lparr>place_id = ''p1'', name = ''Shop'', address = ''1 Main St'',
      location = \<lparr>lat = 24, lng = 46\<rparr>, types = [''store''],
      rating = Some (48 / 10), user_ratings_total = Some 200,
      website = Some ''https://shop.example'', phone_number = None,
      google_maps_url = ''https://maps.example/p1''\<rparr>"

definition max_features :: FeatureVector where
  "max_features =
     \<lparr>fv_place_id = ''p1'', business_name = ''Shop'', fv_website = Some ''https://shop.example'',
      total_pages = 5, languages = [''Arabic'', ''English''], avg_word_count = 500,
      has_structured_data = True, has_meta_description = True, has_open_graph = True,
      has_analytics = True, has_contact_cta = True, has_viewport_meta = True,
      has_email_address = True, has_phone_number = True\<rparr>"

definition max_assessment :: MaturityAssessment where
  "max_assessment =
     \<lparr>ma_place_id = ''p1'', ma_business_name = ''Shop'', overall_score = 185 / 2,
      subscores = \<lparr>technical = 100, seo = 100, content = 80, trust = 90\<rparr>,
      highlights_en = ''ok'', highlights_ar = ''ok'',
      recommendations_en = ''ok'', recommendations_ar = ''ok''\<rparr>"

definition max_analysis :: BusinessAnalysis where
  "max_analysis =
     \<lparr>business = max_business, feature_vector = max_features, maturity = max_assessment,
      industry = ''retail'', web_page_titles = [], ba_locale = ''ar-SA''\<rparr>"

section \<open>Properties of the scorer\<close>

lemma py_round_quarter: "py_round (of_int n / 4) 2 = of_int n / 4"
proof -
  have y: "(of_int n / 4 :: rat) * 10 ^ 2 = of_int (25 * n)" by simp
  show ?thesis
    unfolding py_round_def y Let_def by simp
qed

text \<open>Each subscore is an integer between its base and its cap.\<close>

lemma score_technical_int: "\<exists>k::int. 50 \<le> k \<and> k \<le> 100 \<and> score_technical b f = of_int k"
proof -
  define k :: int where "k = min (50 + (if website_is_https b then 15 else 0)
     + (if has_structured_data f then 10 else 0) + (if has_viewport_meta f then 10 else 0)
     + (if has_analytics f then 15 else 0)) 100"
  have "score_technical b f = of_int k"
    by (simp add: score_technical_def k_def Let_def)
  moreover have "50 \<le> k \<and> k \<le> 100" by (simp add: k_def)
  ultimately show ?thesis by blast
qed

lemma score_seo_int: "\<exists>k::int. 40 \<le> k \<and> k \<le> 100 \<and> score_seo f = of_int k"
proof -
  define k :: int where "k = min (40 + (if has_meta_description f then 15 else 0)
     + (if has_open_graph f then 10 else 0) + (if 2 \<le> length (languages f) then 15 else 0)
     + (if 300 \<le> avg_word_count f then 20 else 0)) 100"
  have "score_seo f = of_int k"
    by (simp add: score_seo_def k_def Let_def)
  moreover have "40 \<le> k \<and> k \<le> 100" by (simp add: k_def)
  ultimately show ?thesis by blast
qed

lemma score_content_int: "\<exists>k::int. 35 \<le> k \<and> k \<le> 80 \<and> score_content f = of_int k"
proof -
  define k :: int where "k = min (35 + (if 400 \<le> avg_word_count f then 20
        else if 250 \<le> avg_word_count f then 10 else 0)
     + (if 3 \<le> total_pages f then 15 else 0) + (if has_contact_cta f then 10 else 0)) 100"
  have "score_content f = of_int k"
    by (simp add: score_content_def k_def Let_def)
  moreover have "35 \<le> k \<and> k \<le> 80" by (simp add: k_def)
  ultimately show ?thesis by blast
qed

lemma score_trust_int: "\<exists>k::int. 45 \<le> k \<and> k \<le> 90 \<and> score_trust b f = of_int k"
proof -
  define k :: int where "k = min (45 + (if 42 / 10 \<le> (case rating b of None \<Rightarrow> 0 | Some r \<Rightarrow> r) then 15 else 0)
     + (if has_email_address f then 10 else 0) + (if has_phone_number f then 10 else 0)
     + (if (case user_ratings_total b of None \<Rightarrow> False | Some n \<Rightarrow> n \<noteq> 0 \<and> 50 < n) then 10 else 0)) 100"
  have "score_trust b f = of_int k"
    by (simp add: score_trust_def k_def Let_def)
  moreover have "45 \<le> k \<and> k \<le> 90" by (simp add: k_def)
  ultimately show ?thesis by blast
qed

lemma score_Inr:
  assumes "fst (score generate b f w) = Inr a"
  shows "subscores a = calculate_subscores b f"
    and "overall_score a = py_round ((technical (subscores a) + seo (subscores a)
            + content (subscores a) + trust (subscores a)) / 4) 2"
  using assms
  by (auto simp: score_def Let_def split: prod.splits sum.splits)

text \<open>The sum of the four subscores is an integer, so rounding its quarter to two places
  changes nothing.\<close>

lemma overall_exact:
  "py_round ((score_technical b f + score_seo f + score_content f + score_trust b f) / 4) 2
     = (score_technical b f + score_seo f + score_content f + score_trust b f) / 4"
proof -
  obtain k1 k2 k3 k4 :: int where
    "score_technical b f = of_int k1" "score_seo f = of_int k2"
    "score_content f = of_int k3" "score_trust b f = of_int k4"
    using score_technical_int score_seo_int score_content_int score_trust_int by metis
  then have "(score_technical b f + score_seo f + score_content f + score_trust b f) / 4
      = of_int (k1 + k2 + k3 + k4) / 4" by simp
  then show ?thesis by (simp only: py_round_quarter)
qed

lemma score_overall_mean:
  assumes "fst (score generate b f w) = Inr a"
  shows "overall_score a
     = (score_technical b f + score_seo f + score_content f + score_trust b f) / 4"
  using score_Inr [OF assms] overall_exact [of b f]
  by (simp add: calculate_subscores_def)

lemma score_const_llm_max:
  "fst (score const_llm max_business max_features ()) = Inr max_assessment"
  by (simp add: score_def const_llm_def calculate_subscores_def score_technical_def
      score_seo_def score_content_def score_trust_def website_is_https_def py_round_def
      max_business_def max_features_def max_assessment_def strip_def is_space_def Let_def)

text \<open>
  C1. On the maximally positive input (https website, rating 4.8, 200 ratings, all eight
  signals true, average word count 500, 5 pages, two languages) the claim expects every
  subscore and the overall score to be 100. The content formula can reach at most
  35 + 20 + 15 + 10 = 80 and the trust formula at most 45 + 15 + 10 + 10 + 10 = 90, so the
  claim fails on this very input.
\<close>

theorem max_positive_not_all_100:
  "\<not> (technical (subscores (projr (fst (score const_llm max_business max_features ())))) = 100
     \<and> seo (subscores (projr (fst (score const_llm max_business max_features ())))) = 100
     \<and> content (subscores (projr (fst (score const_llm max_business max_features ())))) = 100
     \<and> trust (subscores (projr (fst (score const_llm max_business max_features ())))) = 100
     \<and> overall_score (projr (fst (score const_llm max_business max_features ()))) = 100)"
  by (simp add: score_const_llm_max max_assessment_def)

text \<open>
  C1, as amended. On every maximally positive input for which the scorer returns an
  assessment, the technical and seo subscores are 100, the content subscore is 80, the
  trust subscore is 90 and the overall score is 92.5.
\<close>

theorem max_positive_scores:
  assumes "website b = Some s" and "prefix ''https'' s"
    and "rating b = Some (48 / 10)" and "user_ratings_total b = Some 200"
    and "has_structured_data f" and "has_meta_description f" and "has_open_graph f"
    and "has_analytics f" and "has_contact_cta f" and "has_viewport_meta f"
    and "has_email_address f" and "has_phone_number f"
    and "avg_word_count f = 500" and "total_pages f = 5" and "2 \<le> length (languages f)"
    and "fst (score generate b f w) = Inr a"
  shows "technical (subscores a) = 100 \<and> seo (subscores a) = 100
       \<and> content (subscores a) = 80 \<and> trust (subscores a) = 90
       \<and> overall_score a = 925 / 10"
proof -
  have s_ne: "s \<noteq> []" using assms(2) by auto
  have t: "score_technical b f = 100"
    using assms s_ne by (simp add: score_technical_def website_is_https_def Let_def)
  have se: "score_seo f = 100"
    using assms by (simp add: score_seo_def Let_def)
  have c: "score_content f = 80"
    using assms by (simp add: score_content_def Let_def)
  have tr: "score_trust b f = 90"
    using assms by (simp add: score_trust_def Let_def)
  have sub: "subscores a = calculate_subscores b f"
    using score_Inr(1) [OF assms(16)] .
  have ov: "overall_score a = (100 + 100 + 80 + 90) / 4"
    using score_overall_mean [OF assms(16)] t se c tr by simp
  show ?thesis
    using sub ov t se c tr by (simp add: calculate_subscores_def)
qed

theorem max_positive_scores_witness:
  "website max_business = Some ''https://shop.example'' \<and> prefix ''https'' ''https://shop.example''
   \<and> rating max_business = Some (48 / 10) \<and> user_ratings_total max_business = Some 200
   \<and> has_structured_data max_features \<and> has_meta_description max_features
   \<and> has_open_graph max_features \<and> has_analytics max_features
   \<and> has_contact_cta max_features \<and> has_viewport_meta max_features
   \<and> has_email_address max_features \<and> has_phone_number max_features
   \<and> avg_word_count max_features = 500 \<and> total_pages max_features = 5
   \<and> 2 \<le> length (languages max_features)
   \<and> fst (score const_llm max_business max_features ()) = Inr max_assessment
   \<and> technical (subscores max_assessment) = 100 \<and> seo (subscores max_assessment) = 100
   \<and> content (subscores max_assessment) = 80 \<and> trust (subscores max_assessment) = 90
   \<and> overall_score max_assessment = 925 / 10"
proof -
  have h1: "website max_business = Some ''https://shop.example''" by (simp add: max_business_def)
  have h2: "prefix ''https'' ''https://shop.example''" by simp
  have h3: "rating max_business = Some (48 / 10)" by (simp add: max_business_def)
  have h4: "user_ratings_total max_business = Some 200" by (simp add: max_business_def)
  have f: "has_structured_data max_features" "has_meta_description max_features"
    "has_open_graph max_features" "has_analytics max_features"
    "has_contact_cta max_features" "has_viewport_meta max_features"
    "has_email_address max_features" "has_phone_number max_features"
    "avg_word_count max_features = 500" "total_pages max_features = 5"
    "2 \<le> length (languages max_features)"
    by (simp_all add: max_features_def)
  note r = max_positive_scores [OF h1 h2 h3 h4 f score_const_llm_max]
  show ?thesis using h1 h2 h3 h4 f score_const_llm_max r by simp
qed

text \<open>
  C6. Whenever the scorer returns an assessment, each of its four subscores lies in
  [0, 100], its overall score is \<open>round((technical + seo + content + trust) / 4, 2)\<close>,
  and the overall score lies in [0, 100].
\<close>

theorem score_subscores_bounded_overall_mean:
  assumes "fst (score generate b f w) = Inr a"
  shows "0 \<le> technical (subscores a) \<and> technical (subscores a) \<le> 100
       \<and> 0 \<le> seo (subscores a) \<and> seo (subscores a) \<le> 100
       \<and> 0 \<le> content (subscores a) \<and> content (subscores a) \<le> 100
       \<and> 0 \<le> trust (subscores a) \<and> trust (subscores a) \<le> 100
       \<and> overall_score a = py_round ((technical (subscores a) + seo (subscores a)
            + content (subscores a) + trust (subscores a)) / 4) 2
       \<and> 0 \<le> overall_score a \<and> overall_score a \<le> 100"
proof -
  obtain k1 k2 k3 k4 :: int where
    k: "50 \<le> k1" "k1 \<le> 100" "score_technical b f = of_int k1"
       "40 \<le> k2" "k2 \<le> 100" "score_seo f = of_int k2"
       "35 \<le> k3" "k3 \<le> 80" "score_content f = of_int k3"
       "45 \<le> k4" "k4 \<le> 90" "score_trust b f = of_int k4"
    using score_technical_int score_seo_int score_content_int score_trust_int by metis
  have sub: "subscores a = calculate_subscores b f"
    using score_Inr(1) [OF assms] .
  have ov: "overall_score a = of_int (k1 + k2 + k3 + k4) / 4"
    using score_overall_mean [OF assms] k by simp
  have lo: "(0::rat) \<le> of_int (k1 + k2 + k3 + k4) / 4"
    using k by simp
  have "k1 + k2 + k3 + k4 \<le> 400" using k by linarith
  then have "(of_int (k1 + k2 + k3 + k4) :: rat) \<le> of_int 400"
    by (simp only: of_int_le_iff)
  then have hi: "(of_int (k1 + k2 + k3 + k4) :: rat) / 4 \<le> 100" by simp
  show ?thesis
    using sub k lo hi ov score_Inr(2) [OF assms]
    by (simp add: calculate_subscores_def)
qed

theorem score_subscores_bounded_overall_mean_witness:
  "fst (score const_llm max_business max_features ()) = Inr max_assessment
   \<and> 0 \<le> technical (subscores max_assessment) \<and> technical (subscores max_assessment) \<le> 100
   \<and> 0 \<le> seo (subscores max_assessment) \<and> seo (subscores max_assessment) \<le> 100
   \<and> 0 \<le> content (subscores max_assessment) \<and> content (subscores max_assessment) \<le> 100
   \<and> 0 \<le> trust (subscores max_assessment) \<and> trust (subscores max_assessment) \<le> 100
   \<and> overall_score max_assessment = py_round ((technical (subscores max_assessment)
        + seo (subscores max_assessment) + content (subscores max_assessment)
        + trust (subscores max_assessment)) / 4) 2
   \<and> 0 \<le> overall_score max_assessment \<and> overall_score max_assessment \<le> 100"
  using score_subscores_bounded_overall_mean [OF score_const_llm_max] score_const_llm_max
  by simp

text \<open>
  C10. Every subscore is at least its base (technical 50, seo 40, content 35, trust 45);
  hence every assessment the scorer returns has an overall score of at least 42.5, and
  the package rule applied to an analysis that carries such an assessment never answers
  BASIC.
\<close>

theorem subscores_at_least_base_never_basic:
  assumes "fst (score generate b f w) = Inr a" and "maturity analysis = a"
  shows "50 \<le> technical (subscores a) \<and> 40 \<le> seo (subscores a)
       \<and> 35 \<le> content (subscores a) \<and> 45 \<le> trust (subscores a)
       \<and> 425 / 10 \<le> overall_score a
       \<and> analyze_package_fit analysis \<noteq> BASIC"
proof -
  obtain k1 k2 k3 k4 :: int where
    k: "50 \<le> k1" "score_technical b f = of_int k1"
       "40 \<le> k2" "score_seo f = of_int k2"
       "35 \<le> k3" "score_content f = of_int k3"
       "45 \<le> k4" "score_trust b f = of_int k4"
    using score_technical_int score_seo_int score_content_int score_trust_int by metis
  have sub: "subscores a = calculate_subscores b f"
    using score_Inr(1) [OF assms(1)] .
  have ov: "overall_score a = of_int (k1 + k2 + k3 + k4) / 4"
    using score_overall_mean [OF assms(1)] k by simp
  have "170 \<le> k1 + k2 + k3 + k4" using k by linarith
  then have "(of_int 170 :: rat) \<le> of_int (k1 + k2 + k3 + k4)"
    by (simp only: of_int_le_iff)
  then have lo: "(425 / 10 :: rat) \<le> overall_score a" using ov by simp
  then have "\<not> overall_score a < 30" by simp
  then have pk: "analyze_package_fit analysis \<noteq> BASIC"
    using assms(2) by (simp add: analyze_package_fit_def Let_def)
  show ?thesis
    using sub k lo pk by (simp add: calculate_subscores_def)
qed

theorem subscores_at_least_base_never_basic_witness:
  "fst (score const_llm max_business max_features ()) = Inr max_assessment
   \<and> maturity max_analysis = max_assessment
   \<and> 50 \<le> technical (subscores max_assessment) \<and> 40 \<le> seo (subscores max_assessment)
   \<and> 35 \<le> content (subscores max_assessment) \<and> 45 \<le> trust (subscores max_assessment)
   \<and> 425 / 10 \<le> overall_score max_assessment
   \<and> analyze_package_fit max_analysis \<noteq> BASIC"
proof -
  have m: "maturity max_analysis = max_assessment" by (simp add: max_analysis_def)
  show ?thesis
    using subscores_at_least_base_never_basic [OF score_const_llm_max m] score_const_llm_max m
    by simp
qed

section \<open>Properties of the page fetcher\<close>

text \<open>The three attempts of the retry loop, one equation each.\<close>

lemma get_attempt_3:
  "get_attempt N url (Suc (Suc (Suc 0))) w = get_body N url w"
  by (subst get_attempt.simps) (simp add: stop_after_attempt_def split: prod.splits sum.splits)

lemma get_attempt_2:
  "get_attempt N url (Suc (Suc 0)) w =
     (case get_body N url w of
        (Inr response, w') \<Rightarrow> (Inr response, w')
      | (Inl e, w') \<Rightarrow>
          if \<not> retry_if_exception_type e then (Inl e, w')
          else get_attempt N url (Suc (Suc (Suc 0))) (sleep N 2 w'))"
  by (subst get_attempt.simps) (simp add: stop_after_attempt_def wait_exponential_def numeral_2_eq_2 numeral_3_eq_3 split: prod.splits sum.splits)

lemma get_attempt_1:
  "get_attempt N url (Suc 0) w =
     (case get_body N url w of
        (Inr response, w') \<Rightarrow> (Inr response, w')
      | (Inl e, w') \<Rightarrow>
          if \<not> retry_if_exception_type e then (Inl e, w')
          else get_attempt N url (Suc (Suc 0)) (sleep N 1 w'))"
  by (subst get_attempt.simps) (simp add: stop_after_attempt_def wait_exponential_def numeral_2_eq_2 numeral_3_eq_3 split: prod.splits sum.splits)

lemma get_body_scripted:
  "get_body (scripted script) url t =
     ((case script (length (requested t)) of
         Inl e \<Rightarrow> Inl e
       | Inr response \<Rightarrow> if 400 \<le> status_code response then Inl HttpError else Inr response),
      t\<lparr>requested := requested t @ [url]\<rparr>)"
  by (simp add: get_body_def scripted_def split: sum.splits)

lemma sleep_scripted: "sleep (scripted script) d t = t\<lparr>slept := slept t @ [d]\<rparr>"
  by (simp add: scripted_def)

text \<open>What \<open>get\<close> does on a scripted network, in closed form.\<close>

lemma get_scripted:
  "get (scripted script) url no_trace =
     (let out = (\<lambda>k. case script k of Inl e \<Rightarrow> Inl e
                   | Inr response \<Rightarrow> if 400 \<le> status_code response then Inl HttpError else Inr response);
          again = (\<lambda>k. out k = Inl RequestException \<or> out k = Inl HttpError)
      in if \<not> again 0 then (out 0, \<lparr>requested = [url], slept = []\<rparr>)
         else if \<not> again 1 then (out 1, \<lparr>requested = [url, url], slept = [1]\<rparr>)
         else (out 2, \<lparr>requested = [url, url, url], slept = [1, 2]\<rparr>))"
  by (auto simp: get_def get_attempt_1 get_attempt_2 get_attempt_3 get_body_scripted sleep_scripted
        no_trace_def retry_if_exception_type_def Let_def numeral_2_eq_2 split: sum.splits)

text \<open>
  C4, as amended. On every scripted network, \<open>get\<close> makes at most three requests, all
  for the given URL, and pauses 1 second after the first failed attempt and 2 seconds
  after the second. It retries only failed attempts of two kinds: a transport failure
  (\<open>RequestException\<close>) and, unlike the claim, a response with status 400 or more
  (\<open>HttpError\<close>). A first attempt of either kind is followed by a second attempt, and
  every attempt that is followed by another one was of one of these kinds. A first
  response with a status below 400 is returned after that single request, and any other
  exception is raised after that single request, without a pause. \<open>HttpError\<close> and
  \<open>RequestException\<close> leave \<open>get\<close> only after the third attempt, and a response that
  \<open>get\<close> returns has a status below 400.
\<close>

theorem get_retries_http_errors:
  "length (requested (snd (get (scripted script) url no_trace))) \<le> 3
   \<and> set (requested (snd (get (scripted script) url no_trace))) = {url}
   \<and> slept (snd (get (scripted script) url no_trace))
       = take (length (requested (snd (get (scripted script) url no_trace))) - 1) [1, 2]
   \<and> (script 0 = Inl RequestException \<or> (\<exists>response. script 0 = Inr response \<and> 400 \<le> status_code response)
        \<longrightarrow> 2 \<le> length (requested (snd (get (scripted script) url no_trace))))
   \<and> (\<forall>k. Suc k < length (requested (snd (get (scripted script) url no_trace))) \<longrightarrow>
          script k = Inl RequestException \<or> script k = Inl HttpError
          \<or> (\<exists>response. script k = Inr response \<and> 400 \<le> status_code response))
   \<and> (\<forall>response. script 0 = Inr response \<and> status_code response < 400 \<longrightarrow>
          get (scripted script) url no_trace = (Inr response, \<lparr>requested = [url], slept = []\<rparr>))
   \<and> (\<forall>e. script 0 = Inl e \<and> e \<noteq> RequestException \<and> e \<noteq> HttpError \<longrightarrow>
          get (scripted script) url no_trace = (Inl e, \<lparr>requested = [url], slept = []\<rparr>))
   \<and> (fst (get (scripted script) url no_trace) = Inl HttpError
          \<or> fst (get (scripted script) url no_trace) = Inl RequestException
        \<longrightarrow> length (requested (snd (get (scripted script) url no_trace))) = 3)
   \<and> (\<forall>response. fst (get (scripted script) url no_trace) = Inr response
        \<longrightarrow> status_code response < 400)"
proof -
  have only: "script k = Inl RequestException \<or> script k = Inl HttpError
          \<or> (\<exists>response. script k = Inr response \<and> 400 \<le> status_code response)"
    if "Suc k < length (requested (snd (get (scripted script) url no_trace)))" for k
  proof -
    have k: "k = 0 \<or> k = 1" using that unfolding get_scripted Let_def
      by (auto split: if_splits)
    show ?thesis using that k unfolding get_scripted Let_def
      by (auto split: sum.splits if_splits)
  qed
  have rest: "length (requested (snd (get (scripted script) url no_trace))) \<le> 3
   \<and> set (requested (snd (get (scripted script) url no_trace))) = {url}
   \<and> slept (snd (get (scripted script) url no_trace))
       = take (length (requested (snd (get (scripted script) url no_trace))) - 1) [1, 2]
   \<and> (script 0 = Inl RequestException \<or> (\<exists>response. script 0 = Inr response \<and> 400 \<le> status_code response)
        \<longrightarrow> 2 \<le> length (requested (snd (get (scripted script) url no_trace))))
   \<and> (\<forall>response. script 0 = Inr response \<and> status_code response < 400 \<longrightarrow>
          get (scripted script) url no_trace = (Inr response, \<lparr>requested = [url], slept = []\<rparr>))
   \<and> (\<forall>e. script 0 = Inl e \<and> e \<noteq> RequestException \<and> e \<noteq> HttpError \<longrightarrow>
          get (scripted script) url no_trace = (Inl e, \<lparr>requested = [url], slept = []\<rparr>))
   \<and> (fst (get (scripted script) url no_trace) = Inl HttpError
          \<or> fst (get (scripted script) url no_trace) = Inl RequestException
        \<longrightarrow> length (requested (snd (get (scripted script) url no_trace))) = 3)
   \<and> (\<forall>response. fst (get (scripted script) url no_trace) = Inr response
        \<longrightarrow> status_code response < 400)"
    unfolding get_scripted Let_def
    by (auto split: sum.splits if_splits)
  show ?thesis using only rest by blast
qed

theorem get_retries_http_errors_witness:
  "length (requested (snd (get (scripted script_500_then_200) ''u'' no_trace))) \<le> 3
   \<and> script_500_then_200 0 = Inr \<lparr>status_code = 500, body_text = ''error''\<rparr>
   \<and> 400 \<le> status_code \<lparr>status_code = 500, body_text = ''error''\<rparr>
   \<and> 2 \<le> length (requested (snd (get (scripted script_500_then_200) ''u'' no_trace)))
   \<and> Suc 0 < length (requested (snd (get (scripted script_500_then_200) ''u'' no_trace)))
   \<and> fst (get (scripted script_500_then_200) ''u'' no_trace) = Inr \<lparr>status_code = 200, body_text = ''<html></html>''\<rparr>
   \<and> status_code \<lparr>status_code = 200, body_text = ''<html></html>''\<rparr> < 400
   \<and> fst (get (scripted script_always_503) ''u'' no_trace) = Inl HttpError
   \<and> length (requested (snd (get (scripted script_always_503) ''u'' no_trace))) = 3
   \<and> script_always_200 0 = Inr \<lparr>status_code = 200, body_text = ''<html></html>''\<rparr>
   \<and> get (scripted script_always_200) ''u'' no_trace
       = (Inr \<lparr>status_code = 200, body_text = ''<html></html>''\<rparr>, \<lparr>requested = [''u''], slept = []\<rparr>)
   \<and> script_other_exception 0 = Inl OtherException
   \<and> OtherException \<noteq> RequestException \<and> OtherException \<noteq> HttpError
   \<and> get (scripted script_other_exception) ''u'' no_trace
       = (Inl OtherException, \<lparr>requested = [''u''], slept = []\<rparr>)"
  using get_retries_http_errors [of script_500_then_200 "''u''"]
    get_retries_http_errors [of script_always_503 "''u''"]
    get_retries_http_errors [of script_always_200 "''u''"]
    get_retries_http_errors [of script_other_exception "''u''"]
  by (simp add: get_scripted script_500_then_200_def script_always_503_def
        script_always_200_def script_other_exception_def)

text \<open>
  C4. The claim has a response with status 400 or more raise \<open>HttpError\<close> on the first
  attempt, without a retry. On the script 500, 200 the call does not end after one
  request with \<open>HttpError\<close>: the request is made again and the second response is
  returned.
\<close>

theorem get_http_error_retried:
  "\<not> (fst (get (scripted script_500_then_200) ''u'' no_trace) = Inl HttpError
      \<and> requested (snd (get (scripted script_500_then_200) ''u'' no_trace)) = [''u''])"
  by (simp add: get_scripted script_500_then_200_def)


section \<open>Properties of URL parsing and normalisation\<close>
















text \<open>The definitions that evaluate the URL functions on a concrete string.\<close>

named_theorems url_eval

lemmas [url_eval] = normalize_url_def urlsplit_def lib0_def split_scheme_def splitnetloc_def
  brackets_ok_def checknetloc_def split_first_def urlunsplit_def rstrip_slash_def
  c0_control_or_space_def unsafe_url_byte_def ascii_alpha_def scheme_char_def lower_def
  lower_char_def netloc_delim_def is_ascii_def Let_def

text \<open>
  C2. Two URLs that differ only by a trailing slash are claimed to normalise to the same
  string, and a URL whose path is the site root to a string that ends in one slash. The
  code evaluated at the site root written without and with the slash: the first gives
  the string with the slash, the second the string without it. The path \<open>/\<close> is not
  empty, so the slash that \<open>rstrip\<close> removes is not put back.
\<close>

theorem normalize_url_trailing_slash_differs:
  "normalize_url lib0 ''http://a.com'' = Some ''http://a.com/''
   \<and> normalize_url lib0 ''http://a.com/'' = Some ''http://a.com''"
  by (simp add: url_eval)

text \<open>At both inputs the parse succeeds with scheme http and a netloc, so the guard of
  the normaliser is passed and the two results are what the last line computes.\<close>

theorem normalize_url_trailing_slash_differs_witness:
  "urlsplit lib0 ''http://a.com''
     = Some \<lparr>scheme = ''http'', netloc = ''a.com'', path = [], query = [], fragment = []\<rparr>
   \<and> urlsplit lib0 ''http://a.com/''
     = Some \<lparr>scheme = ''http'', netloc = ''a.com'', path = ''/'', query = [], fragment = []\<rparr>
   \<and> normalize_url lib0 ''http://a.com'' \<noteq> normalize_url lib0 ''http://a.com/''"
  using normalize_url_trailing_slash_differs
  by (simp add: url_eval)

text \<open>
  C3. Normalisation is claimed to be idempotent. The code evaluated at a site root and
  at its own result: the result of the second normalisation differs from the first.
\<close>

theorem normalize_url_not_idempotent:
  "normalize_url lib0 ''https://example.test'' = Some ''https://example.test/''
   \<and> normalize_url lib0 ''https://example.test/'' = Some ''https://example.test''
   \<and> ''https://example.test'' \<noteq> ''https://example.test/''"
  by (simp add: url_eval)

theorem normalize_url_not_idempotent_witness:
  "urlsplit lib0 ''https://example.test''
     = Some \<lparr>scheme = ''https'', netloc = ''example.test'', path = [], query = [], fragment = []\<rparr>
   \<and> Option.bind (normalize_url lib0 ''https://example.test'') (normalize_url lib0)
       \<noteq> normalize_url lib0 ''https://example.test''"
  using normalize_url_not_idempotent
  by (simp add: url_eval)

section \<open>Properties of the crawler\<close>








text \<open>
  The requests of a crawl. \<open>recording E\<close> is \<open>E\<close> with every URL that is passed to
  \<open>session.get\<close> appended to a log kept beside the world; the robots files are read by
  the robots parser, not through \<open>session.get\<close>.
\<close>

lemma recording_fields:
  "session_get (net (recording E)) u wl
     = (fst (session_get (net E) u (fst wl)), (snd (session_get (net E) u (fst wl)), snd wl @ [u]))"
  "sleep (net (recording E)) d wl = (sleep (net E) d (fst wl), snd wl)"
  "robot_read (recording E) robots_url wl
     = (fst (robot_read E robots_url (fst wl)), (snd (robot_read E robots_url (fst wl)), snd wl))"
  "can_fetch (recording E) = can_fetch E"
  "soup_title_string (recording E) = soup_title_string E"
  "trafilatura_extract (recording E) = trafilatura_extract E"
  "soup_get_text (recording E) = soup_get_text E"
  "langdetect_detect (recording E) = langdetect_detect E"
  "soup_anchor_hrefs (recording E) = soup_anchor_hrefs E"
  "set_iteration (recording E) = set_iteration E"
  by (simp_all add: recording_def split: prod.splits)




lemma is_allowed_recording:
  "snd (snd (snd (is_allowed L (recording E) u cache wl))) = snd wl"
  by (auto simp: is_allowed_def get_robot_parser_def recording_fields
           split: prod.splits sum.splits option.splits)





text \<open>Running the crawler on \<open>site0\<close>, without and with the requests recorded.\<close>

lemma get_attempt_ok:
  "get_body N u w = (Inr response, w') \<Longrightarrow> get_attempt N u k w = (Inr response, w')"
  by (subst get_attempt.simps) simp

lemma site0_fetch: "fetch_html site0 u () = (Some (site0_page u), ())"
  by (simp add: fetch_html_def get_def get_body_def site0_def get_attempt_ok)

lemma site0_fields:
  "robot_read site0 robots_url w = ((), w)"
  "can_fetch site0 parser agent u = (u \<noteq> ''http://a.com/private'')"
  "soup_title_string site0 html = None"
  "trafilatura_extract site0 html = None"
  "soup_get_text site0 html = html"
  "langdetect_detect site0 s = None"
  "soup_anchor_hrefs site0 html =
     (if html = ''home'' then [''http://a.com/private'', ''http://a.com/about'', ''http://b.org/'']
      else if html = ''about'' then [''http://a.com/private'']
      else [])"
  "set_iteration site0 links = links"
  by (simp_all add: site0_def)

lemma site0_recording_fetch:
  "fetch_html (recording site0) u ((), requests) = (Some (site0_page u), ((), requests @ [u]))"
  by (simp add: fetch_html_def get_def get_body_def recording_fields site0_def get_attempt_ok)

lemma site0_recording_robot_read:
  "robot_read (recording site0) robots_url ((), requests) = ((), ((), requests))"
  by (simp add: recording_fields site0_fields)

named_theorems site0_eval

lemmas [site0_eval] = crawl_step_def is_allowed_def get_robot_parser_def
  domain_key_def site0_fetch site0_recording_fetch site0_recording_robot_read
  recording_fields(4-10) site0_fields extract_internal_links_def detect_language_def
  clean_whitespace_def strip_def is_space_def site0_page_def site0_start_def







text \<open>
  C5. The claim has a robots-disallowed URL marked seen when it is skipped. On \<open>site0\<close>
  the first iteration leaves the disallowed page at the front of the frontier; the
  second iteration pops it, and it is not in the seen set afterwards; the third
  iteration, on the about page, puts it into the frontier again, still unseen, so the
  fourth iteration asks the robots parser about it a second time.
\<close>

theorem disallowed_url_not_marked_seen:
  "to_visit (iterations lib0 site0 5 ''http://a.com/'' (Suc 0) site0_start)
     = [''http://a.com/private'', ''http://a.com/about'']
   \<and> fst (is_allowed lib0 site0 ''http://a.com/private''
             (robots_cache (iterations lib0 site0 5 ''http://a.com/'' (Suc 0) site0_start)) ()) = Inr False
   \<and> ''http://a.com/private'' \<notin> seen (iterations lib0 site0 5 ''http://a.com/'' (Suc (Suc 0)) site0_start)
   \<and> to_visit (iterations lib0 site0 5 ''http://a.com/'' (Suc (Suc (Suc 0))) site0_start) = [''http://a.com/private'']
   \<and> ''http://a.com/private'' \<notin> seen (iterations lib0 site0 5 ''http://a.com/'' (Suc (Suc (Suc 0))) site0_start)"
  by (simp add: site0_eval url_eval)

text \<open>
  C5, as amended. In an iteration that pops \<open>target\<close> and does not raise: when
  \<open>target\<close> is already seen it is skipped, and the seen set, the snapshots, the robots
  cache and the world are unchanged; when \<open>target\<close> is unseen and robots-disallowed it
  is skipped, the seen set and the snapshots are unchanged (a disallowed URL is not
  marked seen), and the robots cache and the world are those the robots check left;
  when \<open>target\<close> is unseen and robots-allowed, it is added to the seen set. A skipped
  URL is not fetched: with the requests recorded, the log of an iteration that skips
  is the log it started with.
\<close>

theorem crawl_step_marks_seen_only_when_allowed:
  "(to_visit st = target # rest \<and> crawl_step L E max_pages root_url st = Inr st' \<longrightarrow>
      (target \<in> seen st \<longrightarrow>
         seen st' = seen st \<and> snapshots st' = snapshots st \<and> to_visit st' = rest
       \<and> robots_cache st' = robots_cache st \<and> world st' = world st)
    \<and> (target \<notin> seen st
         \<and> fst (is_allowed L E target (robots_cache st) (world st)) = Inr False \<longrightarrow>
         seen st' = seen st \<and> snapshots st' = snapshots st \<and> to_visit st' = rest
       \<and> (robots_cache st', world st')
           = snd (is_allowed L E target (robots_cache st) (world st)))
    \<and> (target \<notin> seen st
         \<and> fst (is_allowed L E target (robots_cache st) (world st)) = Inr True \<longrightarrow>
         seen st' = insert target (seen st)))
 \<and> (to_visit logged = target # rest
      \<and> crawl_step L (recording E) max_pages root_url logged = Inr logged'
      \<and> (target \<in> seen logged
           \<or> fst (is_allowed L (recording E) target (robots_cache logged) (world logged))
               = Inr False) \<longrightarrow>
      snd (world logged') = snd (world logged))"
proof -
  have step: "(target \<in> seen s \<longrightarrow>
         seen s' = seen s \<and> snapshots s' = snapshots s \<and> to_visit s' = rest
       \<and> robots_cache s' = robots_cache s \<and> world s' = world s)
    \<and> (target \<notin> seen s
         \<and> fst (is_allowed L F target (robots_cache s) (world s)) = Inr False \<longrightarrow>
         seen s' = seen s \<and> snapshots s' = snapshots s \<and> to_visit s' = rest
       \<and> (robots_cache s', world s')
           = snd (is_allowed L F target (robots_cache s) (world s)))
    \<and> (target \<notin> seen s
         \<and> fst (is_allowed L F target (robots_cache s) (world s)) = Inr True \<longrightarrow>
         seen s' = insert target (seen s))"
    if "to_visit s = target # rest" and "crawl_step L F max_pages root_url s = Inr s'"
    for F :: "('x, 'y) crawler_env" and s s'
    using that
    by (auto simp: crawl_step_def Let_def split: if_splits prod.splits sum.splits option.splits)
  have log: "snd (world logged') = snd (world logged)"
    if pop: "to_visit logged = target # rest"
      and run: "crawl_step L (recording E) max_pages root_url logged = Inr logged'"
      and skip: "target \<in> seen logged
           \<or> fst (is_allowed L (recording E) target (robots_cache logged) (world logged))
               = Inr False"
  proof (cases "target \<in> seen logged")
    case True
    then show ?thesis using step [OF pop run] by simp
  next
    case False
    then have "(robots_cache logged', world logged')
        = snd (is_allowed L (recording E) target (robots_cache logged) (world logged))"
      using step [OF pop run] skip by blast
    then have "world logged'
        = snd (snd (is_allowed L (recording E) target (robots_cache logged) (world logged)))"
      by (metis snd_conv)
    then show ?thesis by (simp add: is_allowed_recording)
  qed
  show ?thesis using step [of st E st'] log by blast
qed

theorem crawl_step_marks_seen_only_when_allowed_witness:
  "to_visit site0_revisit = ''http://a.com/'' # []
   \<and> crawl_step lib0 (recording site0) 5 ''http://a.com/'' site0_revisit
       = Inr (site0_revisit\<lparr>to_visit := []\<rparr>)
   \<and> ''http://a.com/'' \<in> seen site0_revisit
   \<and> seen (site0_revisit\<lparr>to_visit := []\<rparr>) = seen site0_revisit
   \<and> snd (world (site0_revisit\<lparr>to_visit := []\<rparr>)) = snd (world site0_revisit)
   \<and> to_visit site0_blocked = ''http://a.com/private'' # []
   \<and> crawl_step lib0 (recording site0) 5 ''http://a.com/'' site0_blocked
       = Inr (site0_blocked\<lparr>to_visit := [], robots_cache := [''http://a.com'' \<mapsto> ()]\<rparr>)
   \<and> ''http://a.com/private'' \<notin> seen site0_blocked
   \<and> is_allowed lib0 (recording site0) ''http://a.com/private''
         (robots_cache site0_blocked) (world site0_blocked)
       = (Inr False, [''http://a.com'' \<mapsto> ()], ((), []))
   \<and> seen (site0_blocked\<lparr>to_visit := [], robots_cache := [''http://a.com'' \<mapsto> ()]\<rparr>)
       = seen site0_blocked
   \<and> snd (world (site0_blocked\<lparr>to_visit := [], robots_cache := [''http://a.com'' \<mapsto> ()]\<rparr>))
       = snd (world site0_blocked)
   \<and> to_visit site0_start = ''http://a.com/'' # []
   \<and> crawl_step lib0 site0 5 ''http://a.com/'' site0_start
       = Inr (iterations lib0 site0 5 ''http://a.com/'' (Suc 0) site0_start)
   \<and> ''http://a.com/'' \<notin> seen site0_start
   \<and> fst (is_allowed lib0 site0 ''http://a.com/'' (robots_cache site0_start) (world site0_start))
       = Inr True
   \<and> seen (iterations lib0 site0 5 ''http://a.com/'' (Suc 0) site0_start)
       = insert ''http://a.com/'' (seen site0_start)"
  using crawl_step_marks_seen_only_when_allowed
          [where L = lib0 and E = "recording site0" and max_pages = 5
             and root_url = "''http://a.com/''" and st = site0_revisit
             and target = "''http://a.com/''" and rest = "[]"
             and st' = "site0_revisit\<lparr>to_visit := []\<rparr>"]
        crawl_step_marks_seen_only_when_allowed
          [where L = lib0 and E = "recording site0" and max_pages = 5
             and root_url = "''http://a.com/''" and st = site0_blocked
             and target = "''http://a.com/private''" and rest = "[]"
             and st' = "site0_blocked\<lparr>to_visit := [], robots_cache := [''http://a.com'' \<mapsto> ()]\<rparr>"]
        crawl_step_marks_seen_only_when_allowed
          [where L = lib0 and E = site0 and max_pages = 5
             and root_url = "''http://a.com/''" and st = site0_start
             and target = "''http://a.com/''" and rest = "[]"
             and st' = "iterations lib0 site0 5 ''http://a.com/'' (Suc 0) site0_start"
             and logged = site0_revisit
             and logged' = "site0_revisit\<lparr>to_visit := []\<rparr>"]
        crawl_step_marks_seen_only_when_allowed
          [where L = lib0 and E = site0 and max_pages = 5
             and root_url = "''http://a.com/''"
             and target = "''http://a.com/private''" and rest = "[]"
             and logged = site0_blocked
             and logged' = "site0_blocked\<lparr>to_visit := [], robots_cache := [''http://a.com'' \<mapsto> ()]\<rparr>"]
  by (simp add: site0_revisit_def site0_blocked_def site0_eval url_eval)


section \<open>Properties of the feature extractor\<close>

lemma keys_counter_incr:
  "map fst (counter_incr x c) = (if x \<in> set (map fst c) then map fst c else map fst c @ [x])"
  by (induction x c rule: counter_incr.induct) auto

lemma counts_counter_incr:
  assumes "distinct (map fst c)"
  shows "map_of (counter_incr x c) k
           = (if k = x then Some (case map_of c x of None \<Rightarrow> 1 | Some n \<Rightarrow> n + 1) else map_of c k)"
  using assms
  by (induction x c rule: counter_incr.induct) (auto split: option.splits)

lemma first_seen_less: "x \<in> set xs \<Longrightarrow> first_seen xs x < length xs"
  by (induction xs) (auto simp: first_seen_def)

lemma first_seen_append_old: "x \<in> set xs \<Longrightarrow> first_seen (xs @ ys) x = first_seen xs x"
  by (induction xs) (auto simp: first_seen_def)

lemma first_seen_append_new: "x \<notin> set xs \<Longrightarrow> first_seen (xs @ [x]) x = length xs"
  by (induction xs) (auto simp: first_seen_def)

text \<open>The counter after counting the labels \<open>ls\<close> one after the other: its keys
  are the distinct labels in the order of their first occurrence, each with its number
  of occurrences.\<close>

lemma counter_fold:
  "distinct (map fst (foldl (\<lambda>c x. counter_incr x c) [] ls))
   \<and> set (map fst (foldl (\<lambda>c x. counter_incr x c) [] ls)) = set ls
   \<and> (\<forall>k\<in>set ls. map_of (foldl (\<lambda>c x. counter_incr x c) [] ls) k = Some (count_list ls k))
   \<and> sorted_wrt (\<lambda>a b. first_seen ls a < first_seen ls b)
        (map fst (foldl (\<lambda>c x. counter_incr x c) [] ls))"
proof (induction ls rule: rev_induct)
  case Nil
  show ?case by simp
next
  case (snoc x ls)
  define c where "c = foldl (\<lambda>c x. counter_incr x c) [] ls"
  have d: "distinct (map fst c)" and s: "set (map fst c) = set ls"
    and m: "\<forall>k\<in>set ls. map_of c k = Some (count_list ls k)"
    and o: "sorted_wrt (\<lambda>a b. first_seen ls a < first_seen ls b) (map fst c)"
    using snoc.IH unfolding c_def by blast+
  have f: "foldl (\<lambda>c x. counter_incr x c) [] (ls @ [x]) = counter_incr x c"
    by (simp add: c_def)
  have keys: "map fst (counter_incr x c) = (if x \<in> set ls then map fst c else map fst c @ [x])"
    using keys_counter_incr [of x c] s by simp
  have d': "distinct (map fst (counter_incr x c))" using keys d s by auto
  have s': "set (map fst (counter_incr x c)) = set (ls @ [x])" using keys s by auto
  have m': "\<forall>k\<in>set (ls @ [x]). map_of (counter_incr x c) k = Some (count_list (ls @ [x]) k)"
  proof
    fix k assume k: "k \<in> set (ls @ [x])"
    show "map_of (counter_incr x c) k = Some (count_list (ls @ [x]) k)"
    proof (cases "k = x")
      case True
      show ?thesis
      proof (cases "x \<in> set ls")
        case True
        then have "map_of c x = Some (count_list ls x)" using m by blast
        then show ?thesis using \<open>k = x\<close> counts_counter_incr [OF d, of x k] by simp
      next
        case False
        then have "x \<notin> fst ` set c" using s by simp
        then have "map_of c x = None" by (simp add: map_of_eq_None_iff)
        moreover have "count_list ls x = 0" using False by (simp add: count_list_0_iff)
        ultimately show ?thesis using \<open>k = x\<close> counts_counter_incr [OF d, of x k] by simp
      qed
    next
      case False
      then have "k \<in> set ls" using k by simp
      then show ?thesis using False m counts_counter_incr [OF d, of x k] by simp
    qed
  qed
  have o1: "sorted_wrt (\<lambda>a b. first_seen (ls @ [x]) a < first_seen (ls @ [x]) b) (map fst c)"
  proof (rule sorted_wrt_mono_rel [OF _ o])
    fix a b assume "a \<in> set (map fst c)" "b \<in> set (map fst c)"
      and ab: "first_seen ls a < first_seen ls b"
    then have "a \<in> set ls" "b \<in> set ls" using s by simp_all
    then show "first_seen (ls @ [x]) a < first_seen (ls @ [x]) b"
      using ab by (simp add: first_seen_append_old)
  qed
  have o': "sorted_wrt (\<lambda>a b. first_seen (ls @ [x]) a < first_seen (ls @ [x]) b)
              (map fst (counter_incr x c))"
  proof (cases "x \<in> set ls")
    case True
    then show ?thesis using keys o1 by simp
  next
    case False
    have "\<forall>a\<in>set (map fst c). first_seen (ls @ [x]) a < first_seen (ls @ [x]) x"
    proof
      fix a assume "a \<in> set (map fst c)"
      then have a: "a \<in> set ls" using s by simp
      have "first_seen (ls @ [x]) a = first_seen ls a" using first_seen_append_old [OF a] .
      moreover have "first_seen ls a < length ls" using first_seen_less [OF a] .
      moreover have "first_seen (ls @ [x]) x = length ls" using first_seen_append_new [OF False] .
      ultimately show "first_seen (ls @ [x]) a < first_seen (ls @ [x]) x" by simp
    qed
    then show ?thesis using keys False o1 by (simp add: sorted_wrt_append)
  qed
  show ?case unfolding f using d' s' m' o' by blast
qed


text \<open>The loop over the snapshots counts the detected labels.\<close>

lemma language_counter_foldl:
  "language_counter (foldl (scan_snapshot H) acc pages)
     = foldl (\<lambda>c x. counter_incr x c) (language_counter acc) (detected_labels pages)"
proof (induction pages arbitrary: acc)
  case Nil
  show ?case by (simp add: detected_labels_def)
next
  case (Cons p pages)
  have "language_counter (scan_snapshot H acc p)
          = (case language_label p of None \<Rightarrow> language_counter acc
             | Some label \<Rightarrow> counter_incr label (language_counter acc))"
    by (simp add: scan_snapshot_def Let_def)
  then show ?case
    using Cons.IH [of "scan_snapshot H acc p"]
    by (simp add: detected_labels_def split: option.splits)
qed

text \<open>Two elements of a list that both pass a filter keep their order in the filtered
  list.\<close>

lemma sorted_wrt_filter_nth:
  assumes "sorted_wrt R (filter P xs)" and "i < j" and "j < length xs"
    and "P (xs ! i)" and "P (xs ! j)"
  shows "R (xs ! i) (xs ! j)"
  using assms
proof (induction xs arbitrary: i j)
  case Nil
  then show ?case by simp
next
  case (Cons a xs)
  obtain j' where j: "j = Suc j'" using Cons.prems(2) by (cases j) auto
  show ?case
  proof (cases i)
    case 0
    have "P a" using Cons.prems(4) 0 by simp
    moreover have "xs ! j' \<in> set (filter P xs)"
      using Cons.prems(3,5) j by simp
    ultimately show ?thesis using Cons.prems(1) 0 j by simp
  next
    case (Suc i')
    have "sorted_wrt R (filter P xs)" using Cons.prems(1) by (cases "P a") simp_all
    then show ?thesis
      using Cons.IH [of i' j'] Cons.prems(2,3,4,5) Suc j by simp
  qed
qed

text \<open>
  C9. For a non-empty list of snapshots, the language list of the feature vector holds
  each detected label once; a label that comes earlier in the list than another occurs
  more often among the snapshots, or equally often and then its first occurrence in
  the snapshot list comes first.
\<close>

theorem languages_ranked_by_frequency:
  assumes "pages \<noteq> []"
  shows "distinct (languages (build_feature_vector H b pages))
       \<and> set (languages (build_feature_vector H b pages)) = set (detected_labels pages)
       \<and> (\<forall>i j. i < j \<and> j < length (languages (build_feature_vector H b pages)) \<longrightarrow>
              count_list (detected_labels pages) (languages (build_feature_vector H b pages) ! j)
                < count_list (detected_labels pages) (languages (build_feature_vector H b pages) ! i)
            \<or> (count_list (detected_labels pages) (languages (build_feature_vector H b pages) ! j)
                  = count_list (detected_labels pages) (languages (build_feature_vector H b pages) ! i)
               \<and> first_seen (detected_labels pages) (languages (build_feature_vector H b pages) ! i)
                  < first_seen (detected_labels pages) (languages (build_feature_vector H b pages) ! j)))"
proof -
  define labels where "labels = detected_labels pages"
  define c where "c = foldl (\<lambda>c x. counter_incr x c) [] labels"
  define f :: "string \<times> nat \<Rightarrow> int" where "f = (\<lambda>item. - int (snd item))"
  define S where "S = sort_key f c"
  have ls: "languages (build_feature_vector H b pages) = map fst S"
    using assms language_counter_foldl [of H scan_start pages]
    by (simp add: build_feature_vector_def Let_def most_common_def S_def f_def c_def labels_def
          scan_start_def)
  have d: "distinct (map fst c)" and s: "set (map fst c) = set labels"
    and m: "\<forall>k\<in>set labels. map_of c k = Some (count_list labels k)"
    and o: "sorted_wrt (\<lambda>a b. first_seen labels a < first_seen labels b) (map fst c)"
    using counter_fold [of labels] unfolding c_def by blast+
  have setS: "set S = set c" by (simp add: S_def)
  have dS: "distinct (map fst S)"
    using d by (simp add: distinct_map S_def)
  have cnt: "\<And>e. e \<in> set c \<Longrightarrow> snd e = count_list labels (fst e)"
  proof -
    fix e assume e: "e \<in> set c"
    then have "(fst e, snd e) \<in> set c" by simp
    then have "map_of c (fst e) = Some (snd e)" using d by (rule map_of_is_SomeI [rotated])
    moreover have "fst e \<in> set labels" using e s by force
    ultimately show "snd e = count_list labels (fst e)" using m by auto
  qed
  have ord: "sorted_wrt (\<lambda>a b. first_seen labels (fst a) < first_seen labels (fst b)) c"
    using o by (simp add: sorted_wrt_map)
  have rank: "count_list labels (map fst S ! j) < count_list labels (map fst S ! i)
            \<or> (count_list labels (map fst S ! j) = count_list labels (map fst S ! i)
               \<and> first_seen labels (map fst S ! i) < first_seen labels (map fst S ! j))"
    if ij: "i < j" "j < length (map fst S)" for i j
  proof -
    have j: "j < length S" and i: "i < length S" using ij by simp_all
    have ei: "S ! i \<in> set c" and ej: "S ! j \<in> set c" using i j setS nth_mem by blast+
    have "sorted (map f S)" by (simp add: S_def)
    then have "map f S ! i \<le> map f S ! j"
      using ij(1) j by (simp add: sorted_iff_nth_mono)
    then have le: "snd (S ! j) \<le> snd (S ! i)" using i j by (simp add: f_def)
    show ?thesis
    proof (cases "snd (S ! j) = snd (S ! i)")
      case False
      then have "snd (S ! j) < snd (S ! i)" using le by simp
      then show ?thesis using cnt [OF ei] cnt [OF ej] i j by simp
    next
      case True
      define k where "k = f (S ! i)"
      have pi: "f (S ! i) = k" and pj: "f (S ! j) = k" using True by (simp_all add: k_def f_def)
      have "sorted_wrt (\<lambda>a b. first_seen labels (fst a) < first_seen labels (fst b))
              (filter (\<lambda>y. f y = k) c)"
        using ord by (rule sorted_wrt_filter)
      then have "sorted_wrt (\<lambda>a b. first_seen labels (fst a) < first_seen labels (fst b))
              (filter (\<lambda>y. f y = k) S)"
        unfolding S_def by (simp only: sort_key_stable)
      then have "first_seen labels (fst (S ! i)) < first_seen labels (fst (S ! j))"
        using sorted_wrt_filter_nth [of _ "\<lambda>y. f y = k" S i j] ij(1) j pi pj by blast
      then show ?thesis using True cnt [OF ei] cnt [OF ej] i j by simp
    qed
  qed
  have "set (map fst S) = set labels" using setS s by simp
  then show ?thesis
    unfolding ls labels_def [symmetric] using dS rank by blast
qed


text \<open>The extractor on four pages in English, Arabic, Arabic and French.\<close>

lemma pages0_labels: "detected_labels pages0 = [''English'', ''Arabic'', ''Arabic'', ''fr'']"
  by code_simp

lemma pages0_languages:
  "languages (build_feature_vector html0 max_business pages0) = [''Arabic'', ''English'', ''fr'']"
  using language_counter_foldl [of html0 scan_start pages0]
  by (simp add: build_feature_vector_def Let_def most_common_def pages0_labels scan_start_def)
     (simp add: pages0_def)

theorem languages_ranked_by_frequency_witness:
  "pages0 \<noteq> []
   \<and> detected_labels pages0 = [''English'', ''Arabic'', ''Arabic'', ''fr'']
   \<and> languages (build_feature_vector html0 max_business pages0) = [''Arabic'', ''English'', ''fr'']
   \<and> count_list (detected_labels pages0) ''English'' < count_list (detected_labels pages0) ''Arabic''
   \<and> count_list (detected_labels pages0) ''fr'' = count_list (detected_labels pages0) ''English''
   \<and> first_seen (detected_labels pages0) ''English'' < first_seen (detected_labels pages0) ''fr''"
proof -
  have ne: "pages0 \<noteq> []" by (simp add: pages0_def)
  show ?thesis
    using languages_ranked_by_frequency [OF ne, of html0 max_business] ne
    by (simp add: pages0_languages pages0_labels first_seen_def)
qed

text \<open>
  C8. For every business record (and every HTML library), the feature vector of the
  empty page list is returned before any library call is made: zero pages, no language,
  average word count 0 and all eight signals false.
\<close>

theorem build_feature_vector_empty:
  "build_feature_vector H b [] =
     \<lparr>fv_place_id = place_id b, business_name = name b, fv_website = website b,
      total_pages = 0, languages = [], avg_word_count = 0,
      has_structured_data = False, has_meta_description = False, has_open_graph = False,
      has_analytics = False, has_contact_cta = False, has_viewport_meta = False,
      has_email_address = False, has_phone_number = False\<rparr>"
  by (simp add: build_feature_vector_def)

theorem build_feature_vector_empty_witness:
  "total_pages (build_feature_vector html0 max_business []) = 0
   \<and> languages (build_feature_vector html0 max_business []) = []
   \<and> avg_word_count (build_feature_vector html0 max_business []) = 0
   \<and> has_structured_data (build_feature_vector html0 max_business []) = False
   \<and> has_meta_description (build_feature_vector html0 max_business []) = False
   \<and> has_open_graph (build_feature_vector html0 max_business []) = False
   \<and> has_analytics (build_feature_vector html0 max_business []) = False
   \<and> has_contact_cta (build_feature_vector html0 max_business []) = False
   \<and> has_viewport_meta (build_feature_vector html0 max_business []) = False
   \<and> has_email_address (build_feature_vector html0 max_business []) = False
   \<and> has_phone_number (build_feature_vector html0 max_business []) = False"
  using build_feature_vector_empty [of html0 max_business]
  by simp

end
